theory Spec2Isabelle
  imports Main
begin

section \<open>Values of the host language\<close>

text \<open>
  Strings are byte strings (the UTF-8 form of the program's strings). A string is
  truthy when it is not empty; an optional string is truthy when it is defined and
  not empty.
\<close>

definition truthy :: "string option \<Rightarrow> bool" where
  "truthy v = (case v of None \<Rightarrow> False | Some s \<Rightarrow> s \<noteq> [])"

text \<open>The result of \<^verbatim>\<open>parseInt\<close>: not-a-number, or an integer.\<close>

datatype js_number = NaN | Num int

text \<open>\<^verbatim>\<open>s.startsWith(p)\<close> and the test of the pattern \<^verbatim>\<open>/p$/\<close>.\<close>

definition startsWith :: "string \<Rightarrow> string \<Rightarrow> bool" where
  "startsWith s p = (take (length p) s = p)"

definition endsWith :: "string \<Rightarrow> string \<Rightarrow> bool" where
  "endsWith s p = (length p \<le> length s \<and> drop (length s - length p) s = p)"

text \<open>
  \<^verbatim>\<open>s.split(c)\<close> for a one-character separator: the pieces between the
  separators, at least one piece (the empty string gives one empty piece).
\<close>

fun split :: "char \<Rightarrow> string \<Rightarrow> string list" where
  "split c [] = [[]]"
| "split c (x # xs) =
     (if x = c then [] # split c xs
      else (case split c xs of [] \<Rightarrow> [[x]] | p # ps \<Rightarrow> (x # p) # ps))"

section \<open>Data model\<close>

text \<open>
  \<^verbatim>\<open>SherrorError\<close>. The interface types \<^verbatim>\<open>post_title\<close> and \<^verbatim>\<open>post_body\<close> as
  strings, and \<^verbatim>\<open>sync\<close> checks at run time that they are: \<open>None\<close> is a field that
  is \<^verbatim>\<open>undefined\<close>. The link is optional in the interface.
\<close>

record sherror_error =
  error_code :: int
  app_message :: string
  post_title :: "string option"
  post_body :: "string option"
  discussion_link :: "string option"

text \<open>
  \<^verbatim>\<open>SherrorConfig\<close>. The constructor checks both fields at run time (its test
  passes \<^verbatim>\<open>{} as SherrorConfig\<close>), so both are optional here. The printer callback
  is read by the handle's \<^verbatim>\<open>print\<close> only and is left out.
\<close>

record sherror_config =
  category_name :: "string option"
  errors :: "sherror_error list option"

text \<open>
  One constructor for each place that throws; the message is in the comment. First
  the failures of the writeback on the artifact's structure.
\<close>

datatype structural_error =
    FileNotFound
      \<comment> \<open>\<^verbatim>\<open>addSourceFileAtPath\<close> finds no file\<close>
  | NoExportConfig
      \<comment> \<open>No 'export config' found\<close>
  | NotAVariableDeclaration
      \<comment> \<open>the exported declaration has no \<^verbatim>\<open>getInitializerOrThrow\<close>\<close>
  | MissingInitializer
      \<comment> \<open>\<^verbatim>\<open>getInitializerOrThrow\<close> throws\<close>
  | ExpectedObjectLiteral
      \<comment> \<open>Expected config to be an object literal or satisfy an object type.\<close>
  | ExpectedErrorsProperty
      \<comment> \<open>Expected config to have a property "errors".\<close>
  | ExpectedArrayLiteral
      \<comment> \<open>\<^verbatim>\<open>getInitializerIfKindOrThrow\<close> throws\<close>

text \<open>The failures of the client.\<close>

datatype error =
    MissingGithubToken
      \<comment> \<open>'GITHUB\_TOKEN' must be set to configure GitHub Discussions\<close>
  | InvalidConfigMissingFields
      \<comment> \<open>Invalid config: missing required fields\<close>
  | InvalidSherrorConfig
      \<comment> \<open>Invalid sherror config: missing category\_name or errors\<close>
  | MissingCategoryName
      \<comment> \<open>Invalid config: missing category\_name\<close>
  | RepositoryNotFound string string
      \<comment> \<open>Repository owner/repo not found\<close>
  | CategoryNotFound string
      \<comment> \<open>Discussion category "name" not found and cannot be created programmatically\<close>
  | InvalidErrorEntry sherror_error
      \<comment> \<open>Invalid error entry missing post\_title or post\_body: entry\<close>
  | DiscussionNotFound js_number
      \<comment> \<open>Discussion \#num not found\<close>
  | ErrorCodeNotFound int
      \<comment> \<open>Error code code not found in config\<close>
  | UnrecognizedGitRemote string
      \<comment> \<open>Unrecognized git remote URL: remote\<close>
  | InvalidGitRemotePath string
      \<comment> \<open>Invalid git remote path: path\<close>
  | InvalidDiscussionLink string
      \<comment> \<open>Invalid discussion link: link\<close>
  | TypeError
      \<comment> \<open>raised by the runtime: a property of \<^verbatim>\<open>undefined\<close>, an invalid URL\<close>
  | FetchRejected
      \<comment> \<open>\<^verbatim>\<open>fetch\<close> rejects (no response)\<close>
  | GitHubGraphQLError nat string
      \<comment> \<open>GitHub GraphQL error status: text\<close>
  | GraphQLErrors string
      \<comment> \<open>GraphQL errors: errors\<close>
  | UnexpectedResponse
      \<comment> \<open>data that is not of the shape that the query selects (see \<open>response\<close>)\<close>
  | Structural structural_error
      \<comment> \<open>thrown by the writeback\<close>

section \<open>The client's constructor\<close>

record client =
  ghToken :: string
  sherrorConfig :: sherror_config

text \<open>
  \<^verbatim>\<open>new SherrorClient(config)\<close>, from the value of the environment variable
  \<^verbatim>\<open>GITHUB_TOKEN\<close>. \<^verbatim>\<open>!config.errors\<close> holds for a missing list only: an empty
  array is truthy.
\<close>

definition new_SherrorClient :: "string option \<Rightarrow> sherror_config \<Rightarrow> error + client" where
  "new_SherrorClient token config =
     (case token of
        None \<Rightarrow> Inl MissingGithubToken
      | Some t \<Rightarrow>
          if t = [] then Inl MissingGithubToken
          else if \<not> truthy (category_name config) \<or> errors config = None
            then Inl InvalidConfigMissingFields
          else Inr \<lparr>ghToken = t, sherrorConfig = config\<rparr>)"

section \<open>The error accessor\<close>

text \<open>
  \<^verbatim>\<open>get(code)\<close>: the first entry with the code, its message styled. The styling
  function belongs to another package and is a parameter. The handle's \<^verbatim>\<open>print\<close> and
  \<^verbatim>\<open>exit\<close> are closures over the entry; the model returns the entry's fields.
\<close>

definition get :: "(string \<Rightarrow> string) \<Rightarrow> sherror_config \<Rightarrow> int \<Rightarrow> error + sherror_error" where
  "get colorize cfg code =
     (case errors cfg of
        None \<Rightarrow> Inl TypeError
      | Some errs \<Rightarrow>
          (case find (\<lambda>e. error_code e = code) errs of
             None \<Rightarrow> Inl (ErrorCodeNotFound code)
           | Some err \<Rightarrow> Inr (err\<lparr>app_message := colorize (app_message err)\<rparr>)))"

section \<open>Parsing the remote and the discussion link\<close>

text \<open>
  \<^verbatim>\<open>new URL(s).pathname\<close> is the runtime's URL parser: a parameter
  \<open>pathname\<close>, with \<open>None\<close> where the constructor throws.
\<close>

definition is_http :: "string \<Rightarrow> bool" where
  "is_http remote = (startsWith remote ''http://'' \<or> startsWith remote ''https://'')"

text \<open>\<^verbatim>\<open>path.replace(/\.git$/, "")\<close>\<close>

definition strip_git :: "string \<Rightarrow> string" where
  "strip_git path = (if endsWith path ''.git'' then take (length path - 4) path else path)"

text \<open>The end of \<^verbatim>\<open>parseGitRemote\<close>, from the path on.\<close>

definition owner_repo :: "string \<Rightarrow> error + string \<times> string" where
  "owner_repo path0 =
     (let path = strip_git path0 in
      case split (CHR ''/'') path of
        owner # repo # _ \<Rightarrow>
          if owner = [] \<or> repo = [] then Inl (InvalidGitRemotePath path)
          else Inr (owner, repo)
      | _ \<Rightarrow> Inl (InvalidGitRemotePath path))"

definition parseGitRemote :: "(string \<Rightarrow> string option) \<Rightarrow> string \<Rightarrow> error + string \<times> string" where
  "parseGitRemote pathname remote =
     (if startsWith remote ''git@'' then
        (case split (CHR '':'') remote of
           _ # path # _ \<Rightarrow> owner_repo path
         | _ \<Rightarrow> Inl TypeError)
      else if is_http remote then
        (case pathname remote of
           None \<Rightarrow> Inl TypeError
         | Some p \<Rightarrow> owner_repo (drop 1 p))
      else Inl (UnrecognizedGitRemote remote))"

text \<open>
  \<^verbatim>\<open>parseInt(s, 10)\<close>: leading white space, a sign, then the longest run of
  decimal digits; no digit gives NaN. White space is the ASCII part of the language's
  white space (a URL's path is ASCII). The value is exact (the rounding of integers
  beyond \<open>2^53\<close> is not modelled).
\<close>

definition is_space :: "char \<Rightarrow> bool" where
  "is_space c = (c \<in> set [CHR 0x09, CHR 0x0A, CHR 0x0B, CHR 0x0C, CHR 0x0D, CHR '' ''])"

definition is_digit :: "char \<Rightarrow> bool" where
  "is_digit c = (c \<in> set ''0123456789'')"

definition digit_val :: "char \<Rightarrow> int" where
  "digit_val c = int (of_char c) - 48"

definition digits_val :: "string \<Rightarrow> int" where
  "digits_val ds = foldl (\<lambda>acc c. 10 * acc + digit_val c) 0 ds"

definition parseInt :: "string \<Rightarrow> js_number" where
  "parseInt str =
     (let s = dropWhile is_space str;
          sign = (case s of c # _ \<Rightarrow> if c = CHR ''-'' then - 1 else 1 | [] \<Rightarrow> 1);
          body = (case s of c # r \<Rightarrow> if c = CHR ''-'' \<or> c = CHR ''+'' then r else s | [] \<Rightarrow> s);
          ds = takeWhile is_digit body
      in if ds = [] then NaN else Num (sign * digits_val ds))"

text \<open>\<^verbatim>\<open>parts.pop() || ""\<close>\<close>

definition pop_or_empty :: "string list \<Rightarrow> string" where
  "pop_or_empty parts = (case rev parts of [] \<Rightarrow> [] | p # _ \<Rightarrow> p)"

text \<open>
  \<^verbatim>\<open>parseDiscussionNumber\<close>: nothing after the URL constructor throws, so the
  \<^verbatim>\<open>catch\<close> is reached from the constructor only.
\<close>

definition parseDiscussionNumber :: "(string \<Rightarrow> string option) \<Rightarrow> string \<Rightarrow> error + js_number" where
  "parseDiscussionNumber pathname link =
     (case pathname link of
        None \<Rightarrow> Inl (InvalidDiscussionLink link)
      | Some p \<Rightarrow> Inr (parseInt (pop_or_empty (split (CHR ''/'') p))))"

text \<open>
  A reader of plain URLs \<^verbatim>\<open>scheme://host/path\<close>, for the examples: it agrees with
  the runtime's parser on http(s) URLs with a host and a path of unreserved
  characters, and rejects what has no such scheme.
\<close>

definition plain_pathname :: "string \<Rightarrow> string option" where
  "plain_pathname s =
     (if startsWith s ''https://'' then Some (dropWhile (\<lambda>c. c \<noteq> CHR ''/'') (drop 8 s))
      else if startsWith s ''http://'' then Some (dropWhile (\<lambda>c. c \<noteq> CHR ''/'') (drop 7 s))
      else None)"

section \<open>Text of numbers and strings\<close>

text \<open>
  The text of a number in a template literal: decimal digits, with a minus sign
  (error codes are integers, below \<open>10^21\<close> in size, where the language prints
  them so).
\<close>

definition digit_char :: "nat \<Rightarrow> char" where
  "digit_char n = char_of (48 + n)"

fun show_nat :: "nat \<Rightarrow> string" where
  "show_nat n = (if n < 10 then [digit_char n] else show_nat (n div 10) @ [digit_char (n mod 10)])"

definition show_int :: "int \<Rightarrow> string" where
  "show_int i = (if i < 0 then CHR ''-'' # show_nat (nat (- i)) else show_nat (nat i))"

definition newline :: string where
  "newline = [CHR 0x0A]"

definition dquote :: string where
  "dquote = [CHR 0x22]"

definition backslash :: char where
  "backslash = CHR 0x5C"

text \<open>\<^verbatim>\<open>xs.join(sep)\<close>\<close>

fun join :: "string \<Rightarrow> string list \<Rightarrow> string" where
  "join sep [] = []"
| "join sep [x] = x"
| "join sep (x # y # ys) = x @ sep @ join sep (y # ys)"

text \<open>
  \<^verbatim>\<open>JSON.stringify\<close> of a string: the quotation mark and the backslash are
  escaped, the control characters have their short escape or \<^verbatim>\<open>\u00xx\<close>, every
  other byte stands for itself.
\<close>

definition hex_char :: "nat \<Rightarrow> char" where
  "hex_char n = (if n < 10 then char_of (48 + n) else char_of (87 + n))"

definition quote_char :: "char \<Rightarrow> string" where
  "quote_char c =
     (if c = CHR 0x22 then [backslash, CHR 0x22]
      else if c = backslash then [backslash, backslash]
      else if c = CHR 0x08 then [backslash, CHR ''b'']
      else if c = CHR 0x0C then [backslash, CHR ''f'']
      else if c = CHR 0x0A then [backslash, CHR ''n'']
      else if c = CHR 0x0D then [backslash, CHR ''r'']
      else if c = CHR 0x09 then [backslash, CHR ''t'']
      else if (of_char c :: nat) < 32 then
        [backslash, CHR ''u'', CHR ''0'', CHR ''0'',
         hex_char (of_char c div 16), hex_char (of_char c mod 16)]
      else [c])"

definition quote_string :: "string \<Rightarrow> string" where
  "quote_string s = dquote @ concat (map quote_char s) @ dquote"

text \<open>
  \<^verbatim>\<open>prettyJSON\<close> inside a template literal, of a string or of \<^verbatim>\<open>undefined\<close>
  (for which \<^verbatim>\<open>JSON.stringify\<close> returns \<^verbatim>\<open>undefined\<close>).
\<close>

definition prettyJSON :: "string option \<Rightarrow> string" where
  "prettyJSON v = (case v of None \<Rightarrow> ''undefined'' | Some s \<Rightarrow> quote_string s)"

section \<open>The configuration artifact\<close>

text \<open>
  The source file as the writeback reads it: the declarations exported under the
  names \<^verbatim>\<open>default\<close> and \<^verbatim>\<open>config\<close>, an initializer, an object literal, its
  properties, an array literal with the text of each element. The text around the
  elements is never touched and is not modelled.
\<close>

datatype expression =
    ObjectLiteralExpression "property list"
  | SatisfiesExpression expression
  | ArrayLiteralExpression "string list"
  | OtherExpression
and property =
    PropertyAssignment string expression
  | OtherProperty string

datatype exported_declaration =
    VariableDeclaration "expression option"
  | OtherDeclaration

record source_file =
  export_default :: "exported_declaration list"
  export_config :: "exported_declaration list"

text \<open>
  The object literal written for one entry. The template is written twice in the
  source, for replaced and for added elements, with the same text.
\<close>

definition objText :: "sherror_error \<Rightarrow> string" where
  "objText error =
     ''{'' @ newline @
     ''  error_code: '' @ show_int (error_code error) @ '','' @ newline @
     ''  app_message: '' @ prettyJSON (Some (app_message error)) @ '','' @ newline @
     ''  post_title: '' @ prettyJSON (post_title error) @ '','' @ newline @
     ''  post_body: '' @ prettyJSON (post_body error) @
     (if truthy (discussion_link error)
      then '','' @ newline @ ''  _discussion_link: '' @ prettyJSON (discussion_link error)
      else []) @
     newline @ ''}''"

text \<open>
  The editing library writes a text of several lines with an indentation: every line
  after the first starts with it. Which indentation it takes for an element is the
  library's matter (it depends on the layout of the file): a parameter
  \<open>indentation\<close>, from the elements of the array before the writeback and the
  index of the element that is written, replaced or added.
\<close>

type_synonym indentation = "string list \<Rightarrow> nat \<Rightarrow> string"

definition indent_text :: "string \<Rightarrow> string \<Rightarrow> string" where
  "indent_text ind txt = concat (map (\<lambda>c. if c = CHR 0x0A then CHR 0x0A # ind else [c]) txt)"

text \<open>
  The two steps on the array literal: every element whose index has an entry is
  replaced by the entry's text; the entries beyond the elements are added, in their
  order.
\<close>

definition replace_elements :: "indentation \<Rightarrow> sherror_error list \<Rightarrow> string list \<Rightarrow> string list" where
  "replace_elements ind errs elements =
     map (\<lambda>(index, element).
            if index < length errs
            then indent_text (ind elements index) (objText (errs ! index))
            else element)
       (zip [0..<length elements] elements)"

definition write_elements :: "indentation \<Rightarrow> sherror_error list \<Rightarrow> string list \<Rightarrow> string list" where
  "write_elements ind errs elements =
     (let replaced = replace_elements ind errs elements in
      if length errs > length replaced
      then replaced @
           map (\<lambda>index. indent_text (ind elements index) (objText (errs ! index)))
             [length replaced..<length errs]
      else replaced)"

text \<open>\<^verbatim>\<open>getProperty("errors")\<close> is the first property of that name.\<close>

fun property_name :: "property \<Rightarrow> string" where
  "property_name (PropertyAssignment n _) = n"
| "property_name (OtherProperty n) = n"

fun write_errors_property :: "indentation \<Rightarrow> sherror_error list \<Rightarrow> property list \<Rightarrow> structural_error + property list" where
  "write_errors_property ind errs [] = Inl ExpectedErrorsProperty"
| "write_errors_property ind errs (p # ps) =
     (if property_name p = ''errors'' then
        (case p of
           PropertyAssignment n (ArrayLiteralExpression elements) \<Rightarrow>
             Inr (PropertyAssignment n (ArrayLiteralExpression (write_elements ind errs elements)) # ps)
         | PropertyAssignment n _ \<Rightarrow> Inl ExpectedArrayLiteral
         | OtherProperty _ \<Rightarrow> Inl ExpectedErrorsProperty)
      else (case write_errors_property ind errs ps of
              Inl e \<Rightarrow> Inl e
            | Inr ps' \<Rightarrow> Inr (p # ps')))"

text \<open>The initializer: an object literal, or one under a single \<^verbatim>\<open>satisfies\<close>.\<close>

definition write_initializer :: "indentation \<Rightarrow> sherror_error list \<Rightarrow> expression \<Rightarrow> structural_error + expression" where
  "write_initializer ind errs initializer =
     (case initializer of
        SatisfiesExpression (ObjectLiteralExpression props) \<Rightarrow>
          (case write_errors_property ind errs props of
             Inl e \<Rightarrow> Inl e
           | Inr props' \<Rightarrow> Inr (SatisfiesExpression (ObjectLiteralExpression props')))
      | ObjectLiteralExpression props \<Rightarrow>
          (case write_errors_property ind errs props of
             Inl e \<Rightarrow> Inl e
           | Inr props' \<Rightarrow> Inr (ObjectLiteralExpression props'))
      | _ \<Rightarrow> Inl ExpectedObjectLiteral)"

definition write_declaration :: "indentation \<Rightarrow> sherror_error list \<Rightarrow> exported_declaration list \<Rightarrow> structural_error + exported_declaration list" where
  "write_declaration ind errs configDecls =
     (case configDecls of
        [] \<Rightarrow> Inl NoExportConfig
      | OtherDeclaration # _ \<Rightarrow> Inl NotAVariableDeclaration
      | VariableDeclaration None # _ \<Rightarrow> Inl MissingInitializer
      | VariableDeclaration (Some initializer) # rest \<Rightarrow>
          (case write_initializer ind errs initializer of
             Inl e \<Rightarrow> Inl e
           | Inr initializer' \<Rightarrow> Inr (VariableDeclaration (Some initializer') # rest)))"

text \<open>The export named \<^verbatim>\<open>default\<close>, or else the one named \<^verbatim>\<open>config\<close>.\<close>

definition write_source_file :: "indentation \<Rightarrow> sherror_error list \<Rightarrow> source_file \<Rightarrow> structural_error + source_file" where
  "write_source_file ind errs file =
     (if export_default file \<noteq> [] then
        (case write_declaration ind errs (export_default file) of
           Inl e \<Rightarrow> Inl e
         | Inr ds \<Rightarrow> Inr (file\<lparr>export_default := ds\<rparr>))
      else
        (case write_declaration ind errs (export_config file) of
           Inl e \<Rightarrow> Inl e
         | Inr ds \<Rightarrow> Inr (file\<lparr>export_config := ds\<rparr>)))"

section \<open>Reading an entry back\<close>

text \<open>
  The client never reads the text that it writes: the entries come back through the
  language, when the artifact is imported again. What follows is the reading that the
  statements about the written text are made against. A literal is read as the list
  of its fields, in their order, each with a value: a string literal, read with the
  escapes of the language (a line end inside the quotes is an error), or any other
  token up to the next comma, brace or white space (a number, \<^verbatim>\<open>undefined\<close>),
  kept as its text. The artifact is read along the path of the writeback: the export
  named \<^verbatim>\<open>default\<close> or else \<^verbatim>\<open>config\<close>, its initializer, the first property
  named \<^verbatim>\<open>errors\<close>, the elements of its array.
\<close>

datatype literal_value = StringLiteral string | Bare string

definition hex_val :: "char \<Rightarrow> nat option" where
  "hex_val c =
     (let n = of_char c :: nat in
      if 48 \<le> n \<and> n \<le> 57 then Some (n - 48)
      else if 97 \<le> n \<and> n \<le> 102 then Some (n - 87)
      else if 65 \<le> n \<and> n \<le> 70 then Some (n - 55)
      else None)"

definition hex4 :: "char \<Rightarrow> char \<Rightarrow> char \<Rightarrow> char \<Rightarrow> char option" where
  "hex4 h1 h2 h3 h4 =
     (case (hex_val h1, hex_val h2, hex_val h3, hex_val h4) of
        (Some a, Some b, Some c, Some d) \<Rightarrow>
          (let v = ((a * 16 + b) * 16 + c) * 16 + d in
           if v < 256 then Some (char_of v) else None)
      | _ \<Rightarrow> None)"

definition unescape :: "char \<Rightarrow> char option" where
  "unescape e =
     (if e = CHR 0x22 then Some (CHR 0x22)
      else if e = backslash then Some backslash
      else if e = CHR ''b'' then Some (CHR 0x08)
      else if e = CHR ''f'' then Some (CHR 0x0C)
      else if e = CHR ''n'' then Some (CHR 0x0A)
      else if e = CHR ''r'' then Some (CHR 0x0D)
      else if e = CHR ''t'' then Some (CHR 0x09)
      else None)"

fun unquote :: "string \<Rightarrow> (string \<times> string) option" where
  "unquote [] = None"
| "unquote (c # cs) =
     (if c = CHR 0x22 then Some ([], cs)
      else if c = backslash then
        (case cs of
           [] \<Rightarrow> None
         | e # r \<Rightarrow>
             if e = CHR ''u'' then
               (case r of
                  h1 # h2 # h3 # h4 # r' \<Rightarrow>
                    (case hex4 h1 h2 h3 h4 of
                       None \<Rightarrow> None
                     | Some ch \<Rightarrow> map_option (\<lambda>(s, t). (ch # s, t)) (unquote r'))
                | _ \<Rightarrow> None)
             else
               (case unescape e of
                  None \<Rightarrow> None
                | Some ch \<Rightarrow> map_option (\<lambda>(s, t). (ch # s, t)) (unquote r)))
      else if c = CHR 0x0A \<or> c = CHR 0x0D then None
      else map_option (\<lambda>(s, t). (c # s, t)) (unquote cs))"

definition is_ident :: "char \<Rightarrow> bool" where
  "is_ident c =
     (let n = of_char c :: nat in
      (97 \<le> n \<and> n \<le> 122) \<or> (65 \<le> n \<and> n \<le> 90) \<or> (48 \<le> n \<and> n \<le> 57)
      \<or> c = CHR ''_'' \<or> c = CHR ''$'')"

definition is_bare :: "char \<Rightarrow> bool" where
  "is_bare c = (\<not> is_space c \<and> c \<noteq> CHR '','' \<and> c \<noteq> CHR ''}'' \<and> c \<noteq> CHR 0x22)"

definition skip_space :: "string \<Rightarrow> string" where
  "skip_space s = dropWhile is_space s"

definition read_value :: "string \<Rightarrow> (literal_value \<times> string) option" where
  "read_value s =
     (case s of
        [] \<Rightarrow> None
      | c # r \<Rightarrow>
          if c = CHR 0x22 then map_option (\<lambda>(v, t). (StringLiteral v, t)) (unquote r)
          else if takeWhile is_bare s = [] then None
          else Some (Bare (takeWhile is_bare s), dropWhile is_bare s))"

text \<open>
  The fields of a literal, from the first key on. Each field takes one unit of the
  first argument, which bounds the number of fields read.
\<close>

fun read_fields :: "nat \<Rightarrow> string \<Rightarrow> (string \<times> literal_value) list option" where
  "read_fields 0 s = None"
| "read_fields (Suc n) s =
     (let key = takeWhile is_ident s in
      if key = [] then None
      else case dropWhile is_ident s of
        [] \<Rightarrow> None
      | c # r \<Rightarrow>
          if c \<noteq> CHR '':'' then None
          else case read_value (skip_space r) of
            None \<Rightarrow> None
          | Some (v, r') \<Rightarrow>
              (case skip_space r' of
                 [] \<Rightarrow> None
               | d # r'' \<Rightarrow>
                   if d = CHR '','' then map_option ((#) (key, v)) (read_fields n (skip_space r''))
                   else if d = CHR ''}'' \<and> skip_space r'' = [] then Some [(key, v)]
                   else None))"

definition read_literal :: "string \<Rightarrow> (string \<times> literal_value) list option" where
  "read_literal s =
     (case skip_space s of
        [] \<Rightarrow> None
      | c # r \<Rightarrow>
          if c \<noteq> CHR ''{'' then None
          else (case skip_space r of
                  [] \<Rightarrow> None
                | d # r' \<Rightarrow>
                    if d = CHR ''}'' then (if skip_space r' = [] then Some [] else None)
                    else read_fields (length (d # r')) (d # r')))"

definition literal_of :: "string option \<Rightarrow> literal_value" where
  "literal_of v = (case v of None \<Rightarrow> Bare ''undefined'' | Some s \<Rightarrow> StringLiteral s)"

definition field_names :: "string \<Rightarrow> string list option" where
  "field_names s = map_option (map fst) (read_literal s)"

text \<open>A text that is read as the value \<open>v\<close> wherever a value ends after it.\<close>

definition reads_as :: "string \<Rightarrow> literal_value \<Rightarrow> bool" where
  "reads_as lit v =
     (\<forall>d rest. \<not> is_bare d \<longrightarrow>
        read_value (lit @ d # rest) = Some (v, d # rest)
        \<and> skip_space (lit @ d # rest) = lit @ d # rest)"


fun errors_property :: "property list \<Rightarrow> string list option" where
  "errors_property [] = None"
| "errors_property (p # ps) =
     (if property_name p = ''errors'' then
        (case p of
           PropertyAssignment n (ArrayLiteralExpression elements) \<Rightarrow> Some elements
         | _ \<Rightarrow> None)
      else errors_property ps)"

definition artifact_elements :: "source_file \<Rightarrow> string list option" where
  "artifact_elements file =
     (case (if export_default file \<noteq> [] then export_default file else export_config file) of
        VariableDeclaration (Some initializer) # _ \<Rightarrow>
          (case initializer of
             SatisfiesExpression (ObjectLiteralExpression props) \<Rightarrow> errors_property props
           | ObjectLiteralExpression props \<Rightarrow> errors_property props
           | _ \<Rightarrow> None)
      | _ \<Rightarrow> None)"


section \<open>The remote platform\<close>

text \<open>
  The GraphQL operations that the client sends, with their variables, and the data
  that each selects.
\<close>

datatype request =
    RepoInfo string string
      \<comment> \<open>owner, repo\<close>
  | GetDiscussion string string js_number
      \<comment> \<open>owner, repo, number\<close>
  | UpdateDiscussion string string string
      \<comment> \<open>id, title, body\<close>
  | CreateDiscussion string string string string
      \<comment> \<open>repoId, catId, title, body\<close>
  | GetDiscussions string string string
      \<comment> \<open>owner, repo, categoryId\<close>
  | DeleteDiscussion string
      \<comment> \<open>id\<close>

datatype category = Category (cat_id: string) (cat_name: string)

datatype repository = Repository (repo_id: string) (discussionCategories: "category list")

datatype discussion = Discussion (disc_id: string) (disc_title: string) (disc_body: string)

datatype discussion_node = DiscussionNode (node_id: string) (node_number: int) (node_title: string)

text \<open>
  The \<^verbatim>\<open>data\<close> of a response. A GraphQL endpoint answers in the shape of the
  query; the model answers data of another shape with \<open>UnexpectedResponse\<close> where
  the client reads it.
\<close>

datatype response =
    RepoInfoData "repository option"
  | DiscussionData "discussion option option"
      \<comment> \<open>the repository or its discussion may be null\<close>
  | UpdateDiscussionData string
  | CreateDiscussionData string
      \<comment> \<open>the new discussion's url\<close>
  | DiscussionsData "discussion_node list option"
  | DeleteDiscussionData

datatype fetch_result =
    Rejected
  | NotOk nat string
      \<comment> \<open>status and text of a response that is not ok\<close>
  | Errors string
      \<comment> \<open>a body with \<^verbatim>\<open>errors\<close>\<close>
  | Data response

text \<open>
  The platform answers a request in its current state \<open>'w\<close> and moves to a new
  state. Any platform is a function of this type.
\<close>

type_synonym 'w github = "request \<Rightarrow> 'w \<Rightarrow> fetch_result \<times> 'w"

text \<open>
  One entry of the log of requests: the iteration of \<^verbatim>\<open>sync\<close>'s loop that sent
  it (\<open>None\<close> outside the loop), the request and its result.
\<close>

datatype event = Event (entry: "nat option") (sent: request) (result: fetch_result)

datatype console_line =
    Log string
  | Debug string
  | ConsoleError string error

section \<open>The client and its surroundings\<close>

text \<open>
  The client's fields with what its methods read and change: the origin of the
  working copy (the output of git, trimmed), the platform's state, the artifact on
  disk (\<open>None\<close> when there is no file) with the indentation that the editing
  library takes in it, the console. The log of requests and the number of calls of
  \<^verbatim>\<open>writebackConfig\<close> are kept for the statements about them.
\<close>

record 'w system = client +
  origin :: string
  world :: 'w
  artifact :: "source_file option"
  layout :: indentation
  console :: "console_line list"
  calls :: "event list"
  writebacks :: nat

definition console_log :: "console_line \<Rightarrow> 'w system \<Rightarrow> 'w system" where
  "console_log l s = s\<lparr>console := console s @ [l]\<rparr>"

text \<open>The requests sent from state \<open>s\<close> to state \<open>s'\<close>.\<close>

definition issued :: "'w system \<Rightarrow> 'w system \<Rightarrow> event list" where
  "issued s s' = drop (length (calls s)) (calls s')"

fun is_create :: "request \<Rightarrow> bool" where
  "is_create (CreateDiscussion _ _ _ _) = True"
| "is_create _ = False"

fun is_update :: "request \<Rightarrow> bool" where
  "is_update (UpdateDiscussion _ _ _) = True"
| "is_update _ = False"

fun is_delete :: "request \<Rightarrow> bool" where
  "is_delete (DeleteDiscussion _) = True"
| "is_delete _ = False"

fun is_data :: "fetch_result \<Rightarrow> bool" where
  "is_data (Data _) = True"
| "is_data _ = False"

text \<open>\<^verbatim>\<open>requestGraphQL\<close>\<close>

definition requestGraphQL :: "'w github \<Rightarrow> nat option \<Rightarrow> request \<Rightarrow> 'w system \<Rightarrow> (error + response) \<times> 'w system" where
  "requestGraphQL G i req s =
     (case G req (world s) of
        (r, w) \<Rightarrow>
          (let s' = s\<lparr>world := w, calls := calls s @ [Event i req r]\<rparr> in
           case r of
             Rejected \<Rightarrow> (Inl FetchRejected, s')
           | NotOk status txt \<Rightarrow> (Inl (GitHubGraphQLError status txt), s')
           | Errors txt \<Rightarrow> (Inl (GraphQLErrors txt), s')
           | Data d \<Rightarrow> (Inr d, s')))"

text \<open>\<^verbatim>\<open>requestRepositoryInfo\<close>\<close>

definition requestRepositoryInfo :: "'w github \<Rightarrow> string \<Rightarrow> string \<Rightarrow> 'w system \<Rightarrow> (error + repository option) \<times> 'w system" where
  "requestRepositoryInfo G owner repo s =
     (case requestGraphQL G None (RepoInfo owner repo) s of
        (Inl e, s') \<Rightarrow> (Inl e, s')
      | (Inr (RepoInfoData repository), s') \<Rightarrow> (Inr repository, s')
      | (Inr _, s') \<Rightarrow> (Inl UnexpectedResponse, s'))"

section \<open>The writeback\<close>

text \<open>
  \<^verbatim>\<open>writebackConfig\<close>: the checks of the artifact come before any change, and
  the file is saved after the last one. The project keeps the parsed file between
  calls; the model reads it from the disk, which holds the same after a save.
\<close>

definition writebackConfig :: "'w system \<Rightarrow> (error + unit) \<times> 'w system" where
  "writebackConfig s0 =
     (let s = s0\<lparr>writebacks := Suc (writebacks s0)\<rparr>;
          cfg = sherrorConfig s
      in if \<not> truthy (category_name cfg) then (Inl InvalidSherrorConfig, s)
         else case errors cfg of
           None \<Rightarrow> (Inl InvalidSherrorConfig, s)
         | Some errs \<Rightarrow>
             (case artifact s of
                None \<Rightarrow> (Inl (Structural FileNotFound), s)
              | Some file \<Rightarrow>
                  (let s1 = (if export_default file = []
                             then console_log (Debug ''No 'export default' found'') s else s)
                   in case write_source_file (layout s) errs file of
                        Inl e \<Rightarrow> (Inl (Structural e), s1)
                      | Inr file' \<Rightarrow> (Inr (), s1\<lparr>artifact := Some file'\<rparr>))))"

section \<open>Synchronization\<close>

text \<open>The text that \<^verbatim>\<open>sync\<close> prints when the category is not found.\<close>

definition category_help :: "string \<Rightarrow> string \<Rightarrow> string \<Rightarrow> category list \<Rightarrow> string" where
  "category_help name owner repo nodes =
     (let availableCategories = join newline (map (\<lambda>c. ''- '' @ cat_name c) nodes) in
      join newline
        [[],
         ''Error: Discussion category '' @ dquote @ name @ dquote @ '' not found in '' @
           owner @ ''/'' @ repo @ ''.'',
         [],
         ''Available categories:'',
         availableCategories,
         [],
         ''To fix this:'',
         ''1. Go to your repository settings on GitHub'',
         ''2. Click on '' @ dquote @ ''Options'' @ dquote @ '' in the left sidebar'',
         ''3. Scroll down to the '' @ dquote @ ''Features'' @ dquote @ '' section'',
         ''4. Make sure '' @ dquote @ ''Discussions'' @ dquote @ '' is enabled'',
         ''5. Click on '' @ dquote @ ''Set up discussions'' @ dquote @ '' if not already set up'',
         ''6. Create a new category named '' @ dquote @ name @ dquote @
           '' in the discussions settings'',
         ''7. Run this command again'',
         []])"

text \<open>\<^verbatim>\<open>this.sherrorConfig.errors[index]._discussion_link = discussionUrl\<close>\<close>

definition set_link :: "nat \<Rightarrow> string \<Rightarrow> 'w system \<Rightarrow> 'w system" where
  "set_link index url s =
     s\<lparr>sherrorConfig := (sherrorConfig s)\<lparr>errors :=
         map_option (\<lambda>errs. errs[index := (errs ! index)\<lparr>discussion_link := Some url\<rparr>])
           (errors (sherrorConfig s))\<rparr>\<rparr>"

text \<open>
  The body of the loop for the entry \<open>err\<close> at \<open>index\<close>; the result is the new
  value of \<^verbatim>\<open>updated\<close>.
\<close>

definition sync_entry ::
  "'w github \<Rightarrow> (string \<Rightarrow> string option) \<Rightarrow> string \<Rightarrow> string \<Rightarrow> string \<Rightarrow> string \<Rightarrow>
   nat \<Rightarrow> sherror_error \<Rightarrow> bool \<Rightarrow> 'w system \<Rightarrow> (error + bool) \<times> 'w system" where
  "sync_entry G pathname owner repo repoId categoryId index err updated s =
     (case (post_title err, post_body err) of
        (Some title, Some body) \<Rightarrow>
          (if truthy (discussion_link err) then
             (case parseDiscussionNumber pathname (the (discussion_link err)) of
                Inl e \<Rightarrow> (Inl e, s)
              | Inr num \<Rightarrow>
                  (case requestGraphQL G (Some index) (GetDiscussion owner repo num) s of
                     (Inl e, s1) \<Rightarrow> (Inl e, s1)
                   | (Inr (DiscussionData (Some (Some disc))), s1) \<Rightarrow>
                       if disc_title disc \<noteq> title \<or> disc_body disc \<noteq> body then
                         (case requestGraphQL G (Some index)
                                 (UpdateDiscussion (disc_id disc) title body) s1 of
                            (Inl e, s2) \<Rightarrow> (Inl e, s2)
                          | (Inr _, s2) \<Rightarrow> (Inr updated, s2))
                       else (Inr updated, s1)
                   | (Inr (DiscussionData _), s1) \<Rightarrow> (Inl (DiscussionNotFound num), s1)
                   | (Inr _, s1) \<Rightarrow> (Inl UnexpectedResponse, s1)))
           else
             (case requestGraphQL G (Some index)
                     (CreateDiscussion repoId categoryId title body) s of
                (Inl e, s1) \<Rightarrow> (Inl e, s1)
              | (Inr (CreateDiscussionData discussionUrl), s1) \<Rightarrow>
                  (Inr True, set_link index discussionUrl s1)
              | (Inr _, s1) \<Rightarrow> (Inl UnexpectedResponse, s1)))
      | _ \<Rightarrow> (Inl (InvalidErrorEntry err), s))"

text \<open>
  The loop \<^verbatim>\<open>for (index = 0; index < cfg.errors.length; index++)\<close>, from
  \<open>index\<close> on. It reads the list of the client's configuration in each round.
\<close>

definition errors_length :: "'w system \<Rightarrow> nat" where
  "errors_length s = (case errors (sherrorConfig s) of None \<Rightarrow> 0 | Some errs \<Rightarrow> length errs)"

function sync_loop ::
  "'w github \<Rightarrow> (string \<Rightarrow> string option) \<Rightarrow> string \<Rightarrow> string \<Rightarrow> string \<Rightarrow> string \<Rightarrow>
   nat \<Rightarrow> bool \<Rightarrow> 'w system \<Rightarrow> (error + bool) \<times> 'w system" where
  "sync_loop G pathname owner repo repoId categoryId index updated s =
     (case errors (sherrorConfig s) of
        None \<Rightarrow> (Inl TypeError, s)
      | Some errs \<Rightarrow>
          if index < length errs then
            (case sync_entry G pathname owner repo repoId categoryId index (errs ! index) updated s of
               (Inl e, s') \<Rightarrow> (Inl e, s')
             | (Inr updated', s') \<Rightarrow>
                 sync_loop G pathname owner repo repoId categoryId (Suc index) updated' s')
          else (Inr updated, s))"
  by pat_completeness auto
termination
proof (relation "measure (\<lambda>(G, pathname, owner, repo, repoId, categoryId, index, updated, s).
        errors_length s - index)", goal_cases)
  case 1
  show ?case by simp
next
  case (2 G pathname owner repo repoId categoryId index updated s errs r s' updated')
  from 2(3)[symmetric] 2(4) have "errors_length s' = errors_length s"
    by (auto simp: sync_entry_def requestGraphQL_def set_link_def errors_length_def Let_def
        split: prod.splits option.splits if_splits sum.splits response.splits fetch_result.splits)
  with 2(1,2) show ?case by (simp add: errors_length_def)
qed

text \<open>\<^verbatim>\<open>sync\<close>\<close>

definition sync :: "'w github \<Rightarrow> (string \<Rightarrow> string option) \<Rightarrow> 'w system \<Rightarrow> (error + unit) \<times> 'w system" where
  "sync G pathname s =
     (case (category_name (sherrorConfig s), errors (sherrorConfig s)) of
        (Some name, Some _) \<Rightarrow>
          if name = [] then (Inl InvalidSherrorConfig, s)
          else
            (case parseGitRemote pathname (origin s) of
               Inl e \<Rightarrow> (Inl e, s)
             | Inr (owner, repo) \<Rightarrow>
                 (case requestRepositoryInfo G owner repo s of
                    (Inl e, s1) \<Rightarrow> (Inl e, s1)
                  | (Inr None, s1) \<Rightarrow> (Inl (RepositoryNotFound owner repo), s1)
                  | (Inr (Some repository), s1) \<Rightarrow>
                      (case find (\<lambda>cat. cat_name cat = name) (discussionCategories repository) of
                         None \<Rightarrow>
                           (Inl (CategoryNotFound name),
                            console_log
                              (Log (category_help name owner repo (discussionCategories repository)))
                              s1)
                       | Some category \<Rightarrow>
                           (let s2 = console_log
                                  (Log (''Using existing category: '' @ cat_name category @
                                        '' ('' @ cat_id category @ '')'')) s1
                            in case sync_loop G pathname owner repo (repo_id repository)
                                      (cat_id category) 0 False s2 of
                                 (Inl e, s3) \<Rightarrow> (Inl e, s3)
                               | (Inr updated, s3) \<Rightarrow>
                                   if updated then writebackConfig s3 else (Inr (), s3)))))
      | _ \<Rightarrow> (Inl InvalidSherrorConfig, s))"

section \<open>Bulk clear\<close>

text \<open>The loop that deletes the fetched discussions, one request each.\<close>

fun delete_discussions :: "'w github \<Rightarrow> discussion_node list \<Rightarrow> 'w system \<Rightarrow> (error + unit) \<times> 'w system" where
  "delete_discussions G [] s = (Inr (), s)"
| "delete_discussions G (d # ds) s =
     (let s1 = console_log
            (Log (''Deleting discussion #'' @ show_int (node_number d) @ '': '' @ node_title d)) s
      in case requestGraphQL G None (DeleteDiscussion (node_id d)) s1 of
           (Inl e, s2) \<Rightarrow>
             (Inl e,
              console_log
                (ConsoleError (''Failed to delete discussion #'' @ show_int (node_number d) @ '':'') e)
                s2)
         | (Inr _, s2) \<Rightarrow> delete_discussions G ds s2)"

text \<open>\<^verbatim>\<open>delete error._discussion_link\<close> for every entry with a truthy link.\<close>

definition clear_link :: "sherror_error \<Rightarrow> sherror_error" where
  "clear_link error =
     (if truthy (discussion_link error) then error\<lparr>discussion_link := None\<rparr> else error)"

definition clear_links :: "'w system \<Rightarrow> (error + unit) \<times> 'w system" where
  "clear_links s =
     (case errors (sherrorConfig s) of
        None \<Rightarrow> (Inr (), s)
      | Some errs \<Rightarrow>
          (let updated = (\<exists>error \<in> set errs. truthy (discussion_link error));
               s1 = s\<lparr>sherrorConfig := (sherrorConfig s)\<lparr>errors := Some (map clear_link errs)\<rparr>\<rparr>
           in if updated then writebackConfig s1 else (Inr (), s1)))"

text \<open>\<^verbatim>\<open>clear\<close>\<close>

definition clear :: "'w github \<Rightarrow> (string \<Rightarrow> string option) \<Rightarrow> 'w system \<Rightarrow> (error + unit) \<times> 'w system" where
  "clear G pathname s =
     (case category_name (sherrorConfig s) of
        None \<Rightarrow> (Inl MissingCategoryName, s)
      | Some name \<Rightarrow>
          if name = [] then (Inl MissingCategoryName, s)
          else
            (case parseGitRemote pathname (origin s) of
               Inl e \<Rightarrow> (Inl e, s)
             | Inr (owner, repo) \<Rightarrow>
                 (case requestRepositoryInfo G owner repo s of
                    (Inl e, s1) \<Rightarrow> (Inl e, s1)
                  | (Inr None, s1) \<Rightarrow> (Inl (RepositoryNotFound owner repo), s1)
                  | (Inr (Some repository), s1) \<Rightarrow>
                      (case find (\<lambda>cat. cat_name cat = name) (discussionCategories repository) of
                         None \<Rightarrow>
                           (Inr (),
                            console_log
                              (Log (''No discussions found in category '' @ dquote @ name @ dquote))
                              s1)
                       | Some category \<Rightarrow>
                           (case requestGraphQL G None
                                   (GetDiscussions owner repo (cat_id category)) s1 of
                              (Inl e, s2) \<Rightarrow> (Inl e, s2)
                            | (Inr (DiscussionsData None), s2) \<Rightarrow> (Inl TypeError, s2)
                            | (Inr (DiscussionsData (Some discussions)), s2) \<Rightarrow>
                                if discussions = [] then
                                  (Inr (),
                                   console_log
                                     (Log (''No discussions found in category '' @ dquote @ name @
                                           dquote))
                                     s2)
                                else
                                  (let s3 = console_log
                                         (Log (''Found '' @ show_nat (length discussions) @
                                               '' discussions to delete...'')) s2
                                   in case delete_discussions G discussions s3 of
                                        (Inl e, s4) \<Rightarrow> (Inl e, s4)
                                      | (Inr _, s4) \<Rightarrow>
                                          clear_links
                                            (console_log
                                               (Log (''Successfully deleted '' @
                                                     show_nat (length discussions) @
                                                     '' discussions from category '' @ dquote @
                                                     name @ dquote))
                                               s4))
                            | (Inr _, s2) \<Rightarrow> (Inl UnexpectedResponse, s2))))))"

section \<open>A scripted platform, for the examples\<close>

text \<open>
  A platform that answers the requests with the results of a script, in order, and
  rejects every request after the last one.
\<close>

definition scripted :: "fetch_result list github" where
  "scripted req w = (case w of [] \<Rightarrow> (Rejected, []) | r # rs \<Rightarrow> (r, rs))"

section \<open>Example data\<close>

text \<open>The configuration of the repository's example, with messages in ASCII.\<close>

definition error_1 :: sherror_error where
  "error_1 = \<lparr>error_code = 1, app_message = ''You must include a --foo option'',
      post_title = Some ''Error 1'', post_body = Some ''if this happens, do that'',
      discussion_link = Some ''https://github.com/polyseam/sherror/discussions/27''\<rparr>"

definition error_2 :: sherror_error where
  "error_2 = \<lparr>error_code = 2, app_message = ''You must include a --bar option'',
      post_title = Some ''Error 2: `bar` must be defined'',
      post_body = Some ''consult the orb'', discussion_link = None\<rparr>"

text \<open>A second entry with the code 1.\<close>

definition error_1_again :: sherror_error where
  "error_1_again = \<lparr>error_code = 1, app_message = ''shadowed'',
      post_title = Some ''Error 1 again'', post_body = Some ''never returned'',
      discussion_link = None\<rparr>"

definition example_config :: "sherror_error list \<Rightarrow> sherror_config" where
  "example_config errs = \<lparr>category_name = Some ''sherror-example'', errors = Some errs\<rparr>"

text \<open>Two entries that agree on every field but the link.\<close>

definition same_but_link :: "sherror_error \<Rightarrow> sherror_error \<Rightarrow> bool" where
  "same_but_link a b = (a\<lparr>discussion_link := None\<rparr> = b\<lparr>discussion_link := None\<rparr>)"

text \<open>
  The second entry once its discussion exists, the categories of the platform, the
  artifact with the given elements, and the client in the working copy of this
  repository before a run, with the script of the platform's answers.
\<close>

definition error_2_linked :: sherror_error where
  "error_2_linked =
     error_2\<lparr>discussion_link := Some ''https://github.com/polyseam/sherror/discussions/28''\<rparr>"

definition example_repository :: repository where
  "example_repository =
     Repository ''R_1'' [Category ''C_0'' ''General'', Category ''C_1'' ''sherror-example'']"

definition other_repository :: repository where
  "other_repository = Repository ''R_1'' [Category ''C_0'' ''General'', Category ''C_2'' ''Ideas'']"

definition example_file :: "string list \<Rightarrow> source_file" where
  "example_file elements =
     \<lparr>export_default = [],
      export_config = [VariableDeclaration (Some (SatisfiesExpression (ObjectLiteralExpression
        [PropertyAssignment ''category_name'' OtherExpression,
         PropertyAssignment ''errors'' (ArrayLiteralExpression elements)])))]\<rparr>"

text \<open>The elements of the example's array are indented by four spaces.\<close>

definition four_spaces :: indentation where
  "four_spaces elements index = ''    ''"

definition written :: "sherror_error \<Rightarrow> string" where
  "written error = indent_text ''    '' (objText error)"

definition example_system :: "sherror_error list \<Rightarrow> 'w \<Rightarrow> 'w system" where
  "example_system errs script =
     \<lparr>ghToken = ''token'', sherrorConfig = example_config errs,
      origin = ''git@github.com:polyseam/sherror.git'', world = script,
      artifact = Some (example_file [''{}'', ''{}'']), layout = four_spaces,
      console = [], calls = [], writebacks = 0\<rparr>"

text \<open>The platform finds discussion 27 and creates discussion 28.\<close>

definition created_script :: "fetch_result list" where
  "created_script =
     [Data (RepoInfoData (Some example_repository)),
      Data (DiscussionData (Some (Some (Discussion ''D_27'' ''Error 1'' ''if this happens, do that'')))),
      Data (CreateDiscussionData ''https://github.com/polyseam/sherror/discussions/28'')]"

text \<open>It creates discussion 28 and does not find discussion 27.\<close>

definition aborted_script :: "fetch_result list" where
  "aborted_script =
     [Data (RepoInfoData (Some example_repository)),
      Data (CreateDiscussionData ''https://github.com/polyseam/sherror/discussions/28''),
      Data (DiscussionData (Some None))]"

text \<open>The discussions of the category, the scripts of two runs of \<^verbatim>\<open>clear\<close>,
  and the first entry without its link.\<close>

definition three_discussions :: "discussion_node list" where
  "three_discussions =
     [DiscussionNode ''D_27'' 27 ''Error 1'', DiscussionNode ''D_28'' 28 ''Error 2'',
      DiscussionNode ''D_29'' 29 ''Error 3'']"

definition cleared_script :: "fetch_result list" where
  "cleared_script =
     [Data (RepoInfoData (Some example_repository)),
      Data (DiscussionsData (Some three_discussions)),
      Data DeleteDiscussionData, Data DeleteDiscussionData, Data DeleteDiscussionData]"

definition empty_category_script :: "fetch_result list" where
  "empty_category_script =
     [Data (RepoInfoData (Some example_repository)), Data (DiscussionsData (Some []))]"

definition error_1_unlinked :: sherror_error where
  "error_1_unlinked = error_1\<lparr>discussion_link := None\<rparr>"


section \<open>Properties of the parsers\<close>

lemma split_nonempty: "split c s \<noteq> []"
  by (induction s) (auto split: list.splits)

lemma split_no_sep: "c \<notin> set s \<Longrightarrow> split c s = [s]"
  by (induction s) auto

lemma split_append_sep: "c \<notin> set a \<Longrightarrow> split c (a @ c # b) = a # split c b"
  by (induction a) (auto simp: split_nonempty split: list.splits)

lemma split_append: "split c (a @ c # b) = split c a @ split c b"
  by (induction a) (auto simp: split_nonempty split: list.splits)

lemma split_pieces: "p \<in> set (split c s) \<Longrightarrow> c \<notin> set p"
  by (induction s arbitrary: p) (auto split: if_splits list.splits)

lemma strip_git_append: "strip_git (p @ ''.git'') = p"
  by (simp add: strip_git_def endsWith_def)

lemma owner_repo_ok:
  assumes "owner \<noteq> []" "repo \<noteq> []" "CHR ''/'' \<notin> set owner" "CHR ''/'' \<notin> set repo"
  shows "owner_repo (owner @ ''/'' @ repo @ ''.git'') = Inr (owner, repo)"
proof -
  have "strip_git (owner @ ''/'' @ repo @ ''.git'') = owner @ CHR ''/'' # repo"
    using strip_git_append[of "owner @ CHR ''/'' # repo"] by simp
  then show ?thesis using assms
    by (simp add: owner_repo_def split_append_sep split_no_sep)
qed

lemma owner_repo_Inr:
  assumes "owner_repo p = Inr (owner, repo)"
  shows "owner \<noteq> [] \<and> repo \<noteq> [] \<and> CHR ''/'' \<notin> set owner \<and> CHR ''/'' \<notin> set repo"
proof -
  from assms obtain rest where sp: "split (CHR ''/'') (strip_git p) = owner # repo # rest"
    and ne: "owner \<noteq> []" "repo \<noteq> []"
    by (auto simp: owner_repo_def Let_def split: list.splits if_splits)
  have "owner \<in> set (split (CHR ''/'') (strip_git p))" "repo \<in> set (split (CHR ''/'') (strip_git p))"
    using sp by simp_all
  then show ?thesis using ne split_pieces by blast
qed

lemma parseGitRemote_ssh:
  assumes "owner \<noteq> []" "repo \<noteq> []" "CHR ''/'' \<notin> set owner" "CHR ''/'' \<notin> set repo"
    and "CHR '':'' \<notin> set host" "CHR '':'' \<notin> set owner" "CHR '':'' \<notin> set repo"
  shows "parseGitRemote U (''git@'' @ host @ '':'' @ owner @ ''/'' @ repo @ ''.git'') = Inr (owner, repo)"
proof -
  have a: "CHR '':'' \<notin> set (''git@'' @ host)" using assms by simp
  have b: "CHR '':'' \<notin> set (owner @ ''/'' @ repo @ ''.git'')" using assms by simp
  have "split (CHR '':'') ((''git@'' @ host) @ CHR '':'' # (owner @ ''/'' @ repo @ ''.git''))
      = [''git@'' @ host, owner @ ''/'' @ repo @ ''.git'']"
    using split_append_sep[OF a] split_no_sep[OF b] by simp
  then have "split (CHR '':'') (''git@'' @ host @ '':'' @ owner @ ''/'' @ repo @ ''.git'')
      = [''git@'' @ host, owner @ ''/'' @ repo @ ''.git'']" by simp
  moreover have "startsWith (''git@'' @ host @ '':'' @ owner @ ''/'' @ repo @ ''.git'') ''git@''"
    by (simp add: startsWith_def)
  ultimately show ?thesis using owner_repo_ok[OF assms(1-4)]
    by (simp add: parseGitRemote_def)
qed

lemma parseGitRemote_https:
  assumes "owner \<noteq> []" "repo \<noteq> []" "CHR ''/'' \<notin> set owner" "CHR ''/'' \<notin> set repo"
    and "U (''https://'' @ rest) = Some (''/'' @ owner @ ''/'' @ repo @ ''.git'')"
  shows "parseGitRemote U (''https://'' @ rest) = Inr (owner, repo)"
  using owner_repo_ok[OF assms(1-4)] assms(5)
  by (simp add: parseGitRemote_def startsWith_def is_http_def)

text \<open>
  C8, as the code has it. A remote \<^verbatim>\<open>git@host:owner/repo.git\<close> (the user is
  \<^verbatim>\<open>git\<close>; no colon in the host or the names) and a remote
  \<^verbatim>\<open>https://host/owner/repo.git\<close> whose URL has the path \<^verbatim>\<open>/owner/repo.git\<close> give
  the owner and the repository name without the suffix, for non-empty names without a
  slash. The failures are these: a remote that starts with neither \<^verbatim>\<open>git@\<close> nor
  \<^verbatim>\<open>http://\<close> or \<^verbatim>\<open>https://\<close> is unrecognized; one with \<^verbatim>\<open>git@\<close> and no
  colon and one whose URL does not parse give a type error; and where the path (the
  text between the first and the second colon of a \<^verbatim>\<open>git@\<close> remote, the URL's path
  without its first character otherwise), with a final \<^verbatim>\<open>.git\<close> removed, does not
  begin with two non-empty segments, the path is invalid. Every other remote is
  accepted with its first two segments, whatever follows them, and every result has
  non-empty names without a slash.
\<close>

theorem parseGitRemote_forms:
  "(owner \<noteq> [] \<and> repo \<noteq> [] \<and> CHR ''/'' \<notin> set owner \<union> set repo
      \<and> CHR '':'' \<notin> set host \<union> set owner \<union> set repo \<longrightarrow>
        parseGitRemote U (''git@'' @ host @ '':'' @ owner @ ''/'' @ repo @ ''.git'')
          = Inr (owner, repo))
   \<and> (owner \<noteq> [] \<and> repo \<noteq> [] \<and> CHR ''/'' \<notin> set owner \<union> set repo
      \<and> U (''https://'' @ host @ ''/'' @ owner @ ''/'' @ repo @ ''.git'')
          = Some (''/'' @ owner @ ''/'' @ repo @ ''.git'') \<longrightarrow>
        parseGitRemote U (''https://'' @ host @ ''/'' @ owner @ ''/'' @ repo @ ''.git'')
          = Inr (owner, repo))
   \<and> (\<not> startsWith r ''git@'' \<and> \<not> is_http r \<longrightarrow>
        parseGitRemote U r = Inl (UnrecognizedGitRemote r))
   \<and> (startsWith r ''git@'' \<and> CHR '':'' \<notin> set r \<longrightarrow> parseGitRemote U r = Inl TypeError)
   \<and> (is_http r \<and> \<not> startsWith r ''git@'' \<and> U r = None \<longrightarrow> parseGitRemote U r = Inl TypeError)
   \<and> ((startsWith r ''git@'' \<and> split (CHR '':'') r = a # path # rest
        \<or> \<not> startsWith r ''git@'' \<and> is_http r \<and> U r = Some pn \<and> path = drop 1 pn)
      \<and> (\<forall>o' p' others. split (CHR ''/'') (strip_git path) = o' # p' # others \<longrightarrow> o' = [] \<or> p' = []) \<longrightarrow>
        parseGitRemote U r = Inl (InvalidGitRemotePath (strip_git path)))
   \<and> ((startsWith r ''git@'' \<and> split (CHR '':'') r = a # path # rest
        \<or> \<not> startsWith r ''git@'' \<and> is_http r \<and> U r = Some pn \<and> path = drop 1 pn)
      \<and> split (CHR ''/'') (strip_git path) = o' # p' # others \<and> o' \<noteq> [] \<and> p' \<noteq> [] \<longrightarrow>
        parseGitRemote U r = Inr (o', p'))
   \<and> (parseGitRemote U r = Inr (o', p') \<longrightarrow>
        o' \<noteq> [] \<and> p' \<noteq> [] \<and> CHR ''/'' \<notin> set o' \<and> CHR ''/'' \<notin> set p')"
proof -
  have ssh: "owner \<noteq> [] \<and> repo \<noteq> [] \<and> CHR ''/'' \<notin> set owner \<union> set repo
      \<and> CHR '':'' \<notin> set host \<union> set owner \<union> set repo \<longrightarrow>
        parseGitRemote U (''git@'' @ host @ '':'' @ owner @ ''/'' @ repo @ ''.git'')
          = Inr (owner, repo)"
    using parseGitRemote_ssh[of owner repo host U] by simp
  have https: "owner \<noteq> [] \<and> repo \<noteq> [] \<and> CHR ''/'' \<notin> set owner \<union> set repo
      \<and> U (''https://'' @ host @ ''/'' @ owner @ ''/'' @ repo @ ''.git'')
          = Some (''/'' @ owner @ ''/'' @ repo @ ''.git'') \<longrightarrow>
        parseGitRemote U (''https://'' @ host @ ''/'' @ owner @ ''/'' @ repo @ ''.git'')
          = Inr (owner, repo)"
    using parseGitRemote_https[of owner repo U "host @ ''/'' @ owner @ ''/'' @ repo @ ''.git''"]
    by simp
  have other: "\<not> startsWith r ''git@'' \<and> \<not> is_http r \<longrightarrow>
        parseGitRemote U r = Inl (UnrecognizedGitRemote r)"
    by (simp add: parseGitRemote_def)
  have no_colon: "startsWith r ''git@'' \<and> CHR '':'' \<notin> set r \<longrightarrow> parseGitRemote U r = Inl TypeError"
    by (simp add: parseGitRemote_def split_no_sep)
  have no_url: "is_http r \<and> \<not> startsWith r ''git@'' \<and> U r = None \<longrightarrow> parseGitRemote U r = Inl TypeError"
    by (simp add: parseGitRemote_def)
  have path: "parseGitRemote U r = owner_repo path"
    if "startsWith r ''git@'' \<and> split (CHR '':'') r = a # path # rest
        \<or> \<not> startsWith r ''git@'' \<and> is_http r \<and> U r = Some pn \<and> path = drop 1 pn"
    using that by (auto simp: parseGitRemote_def)
  have invalid: "(startsWith r ''git@'' \<and> split (CHR '':'') r = a # path # rest
        \<or> \<not> startsWith r ''git@'' \<and> is_http r \<and> U r = Some pn \<and> path = drop 1 pn)
      \<and> (\<forall>o' p' others. split (CHR ''/'') (strip_git path) = o' # p' # others \<longrightarrow> o' = [] \<or> p' = []) \<longrightarrow>
        parseGitRemote U r = Inl (InvalidGitRemotePath (strip_git path))"
  proof
    assume h: "(startsWith r ''git@'' \<and> split (CHR '':'') r = a # path # rest
        \<or> \<not> startsWith r ''git@'' \<and> is_http r \<and> U r = Some pn \<and> path = drop 1 pn)
      \<and> (\<forall>o' p' others. split (CHR ''/'') (strip_git path) = o' # p' # others \<longrightarrow> o' = [] \<or> p' = [])"
    then have "owner_repo path = Inl (InvalidGitRemotePath (strip_git path))"
      by (auto simp: owner_repo_def Let_def split: list.splits)
    with path h show "parseGitRemote U r = Inl (InvalidGitRemotePath (strip_git path))" by simp
  qed
  have valid: "(startsWith r ''git@'' \<and> split (CHR '':'') r = a # path # rest
        \<or> \<not> startsWith r ''git@'' \<and> is_http r \<and> U r = Some pn \<and> path = drop 1 pn)
      \<and> split (CHR ''/'') (strip_git path) = o' # p' # others \<and> o' \<noteq> [] \<and> p' \<noteq> [] \<longrightarrow>
        parseGitRemote U r = Inr (o', p')"
  proof
    assume h: "(startsWith r ''git@'' \<and> split (CHR '':'') r = a # path # rest
        \<or> \<not> startsWith r ''git@'' \<and> is_http r \<and> U r = Some pn \<and> path = drop 1 pn)
      \<and> split (CHR ''/'') (strip_git path) = o' # p' # others \<and> o' \<noteq> [] \<and> p' \<noteq> []"
    then have "owner_repo path = Inr (o', p')"
      by (simp add: owner_repo_def Let_def)
    with path h show "parseGitRemote U r = Inr (o', p')" by simp
  qed
  have result: "parseGitRemote U r = Inr (o', p') \<longrightarrow>
        o' \<noteq> [] \<and> p' \<noteq> [] \<and> CHR ''/'' \<notin> set o' \<and> CHR ''/'' \<notin> set p'"
  proof
    assume "parseGitRemote U r = Inr (o', p')"
    then have "\<exists>p. owner_repo p = Inr (o', p')"
      by (auto simp: parseGitRemote_def split: if_splits list.splits option.splits)
    then show "o' \<noteq> [] \<and> p' \<noteq> [] \<and> CHR ''/'' \<notin> set o' \<and> CHR ''/'' \<notin> set p'"
      using owner_repo_Inr by blast
  qed
  from ssh https other no_colon no_url invalid valid result show ?thesis
    by (intro conjI) assumption+
qed

text \<open>
  C8, witness: the origin of this repository in both forms, a remote of another
  scheme, a remote without a colon, a path of one segment and a path of four.
\<close>

theorem parseGitRemote_forms_witness:
  "parseGitRemote plain_pathname ''git@github.com:polyseam/sherror.git'' = Inr (''polyseam'', ''sherror'')
   \<and> parseGitRemote plain_pathname ''https://github.com/polyseam/sherror.git'' = Inr (''polyseam'', ''sherror'')
   \<and> parseGitRemote plain_pathname ''ssh://github.com/polyseam/sherror.git''
        = Inl (UnrecognizedGitRemote ''ssh://github.com/polyseam/sherror.git'')
   \<and> parseGitRemote plain_pathname ''git@github.com'' = Inl TypeError
   \<and> parseGitRemote plain_pathname ''git@github.com:polyseam'' = Inl (InvalidGitRemotePath ''polyseam'')
   \<and> parseGitRemote plain_pathname ''https://github.com/polyseam/sherror/tree/main.git''
        = Inr (''polyseam'', ''sherror'')"
proof -
  note forms = parseGitRemote_forms [of "''polyseam''" "''sherror''" "''github.com''" plain_pathname
      "''ssh://github.com/polyseam/sherror.git''" "''a''" "''b''" "[]" "''c''" "''o''" "''p''" "[]"]
  have ssh: "parseGitRemote plain_pathname ''git@github.com:polyseam/sherror.git''
      = Inr (''polyseam'', ''sherror'')"
    using forms [THEN conjunct1] by simp
  have https: "parseGitRemote plain_pathname ''https://github.com/polyseam/sherror.git''
      = Inr (''polyseam'', ''sherror'')"
    using forms [THEN conjunct2, THEN conjunct1] by (simp add: plain_pathname_def startsWith_def)
  have other: "parseGitRemote plain_pathname ''ssh://github.com/polyseam/sherror.git''
      = Inl (UnrecognizedGitRemote ''ssh://github.com/polyseam/sherror.git'')"
    using forms [THEN conjunct2, THEN conjunct2, THEN conjunct1]
    by (simp add: startsWith_def is_http_def)
  have no_colon: "parseGitRemote plain_pathname ''git@github.com'' = Inl TypeError"
    using parseGitRemote_forms [of "''polyseam''" "''sherror''" "''github.com''" plain_pathname
      "''git@github.com''" "''a''" "''b''" "[]" "''c''" "''o''" "''p''" "[]",
      THEN conjunct2, THEN conjunct2, THEN conjunct2, THEN conjunct1]
    by (simp add: startsWith_def)
  have one: "parseGitRemote plain_pathname ''git@github.com:polyseam'' = Inl (InvalidGitRemotePath ''polyseam'')"
    using parseGitRemote_forms [of "''polyseam''" "''sherror''" "''github.com''" plain_pathname
      "''git@github.com:polyseam''" "''git@github.com''" "''polyseam''" "[]" "''c''" "''o''" "''p''" "[]",
      THEN conjunct2, THEN conjunct2, THEN conjunct2, THEN conjunct2, THEN conjunct2, THEN conjunct1]
    by (simp add: startsWith_def strip_git_def endsWith_def)
  have four: "parseGitRemote plain_pathname ''https://github.com/polyseam/sherror/tree/main.git''
        = Inr (''polyseam'', ''sherror'')"
    using parseGitRemote_forms [of "''polyseam''" "''sherror''" "''github.com''" plain_pathname
      "''https://github.com/polyseam/sherror/tree/main.git''" "''a''"
      "''polyseam/sherror/tree/main.git''" "[]" "''/polyseam/sherror/tree/main.git''"
      "''polyseam''" "''sherror''" "[''tree'', ''main'']",
      THEN conjunct2, THEN conjunct2, THEN conjunct2, THEN conjunct2, THEN conjunct2, THEN conjunct2,
      THEN conjunct1]
    by (simp add: startsWith_def is_http_def plain_pathname_def strip_git_def endsWith_def)
  from ssh https other no_colon one four show ?thesis by (intro conjI) assumption+
qed

text \<open>
  C8, counterexample: an SSH-style remote \<^verbatim>\<open>user@host:owner/repo.git\<close> whose user
  is not \<^verbatim>\<open>git\<close> is refused, and a remote that is not of the form
  \<^verbatim>\<open>git@host:owner/repo.git\<close>, with four segments in its path, is accepted.
\<close>

theorem parseGitRemote_user_and_segments_counterexample:
  "parseGitRemote plain_pathname ''alice@example.com:owner/repo.git''
     = Inl (UnrecognizedGitRemote ''alice@example.com:owner/repo.git'')
   \<and> parseGitRemote plain_pathname ''git@github.com:owner/repo/extra/more.git''
     = Inr (''owner'', ''repo'')"
  by (simp add: parseGitRemote_def owner_repo_def strip_git_def startsWith_def endsWith_def is_http_def)

lemma pop_split: "c \<notin> set seg \<Longrightarrow> pop_or_empty (split c (dir @ c # seg)) = seg"
  by (simp add: pop_or_empty_def split_append split_no_sep)

text \<open>
  C10: the extraction of the discussion number fails exactly when the link is not a
  parseable URL, and then with "Invalid discussion link". For a URL whose path ends in
  the segment \<open>seg\<close> it returns \<^verbatim>\<open>parseInt\<close> of the segment, which is NaN for
  \<^verbatim>\<open>abc\<close>: the link \<^verbatim>\<open>https://host/discussions/abc\<close> gives NaN and no failure.
\<close>

theorem parseDiscussionNumber_fails_only_without_url:
  "((\<exists>e. parseDiscussionNumber U link = Inl e) \<longleftrightarrow> U link = None)
   \<and> (U link = None \<longrightarrow> parseDiscussionNumber U link = Inl (InvalidDiscussionLink link))
   \<and> (U link = Some (dir @ CHR ''/'' # seg) \<and> CHR ''/'' \<notin> set seg \<longrightarrow>
        parseDiscussionNumber U link = Inr (parseInt seg))
   \<and> parseInt ''abc'' = NaN
   \<and> (U ''https://host/discussions/abc'' = Some ''/discussions/abc'' \<longrightarrow>
        parseDiscussionNumber U ''https://host/discussions/abc'' = Inr NaN)"
proof (intro conjI impI)
  show "(\<exists>e. parseDiscussionNumber U link = Inl e) \<longleftrightarrow> U link = None"
    by (simp add: parseDiscussionNumber_def split: option.splits)
  show "parseDiscussionNumber U link = Inl (InvalidDiscussionLink link)" if "U link = None"
    using that by (simp add: parseDiscussionNumber_def)
  show "parseDiscussionNumber U link = Inr (parseInt seg)"
    if "U link = Some (dir @ CHR ''/'' # seg) \<and> CHR ''/'' \<notin> set seg"
    using that by (simp add: parseDiscussionNumber_def pop_split)
  show abc: "parseInt ''abc'' = NaN"
    by (simp add: parseInt_def is_space_def is_digit_def)
  show "parseDiscussionNumber U ''https://host/discussions/abc'' = Inr NaN"
    if "U ''https://host/discussions/abc'' = Some ''/discussions/abc''"
  proof -
    have "pop_or_empty (split (CHR ''/'') (''/discussions'' @ CHR ''/'' # ''abc'')) = ''abc''"
      by (rule pop_split) simp
    then show ?thesis using that abc by (simp add: parseDiscussionNumber_def)
  qed
qed

text \<open>
  C10, witness: the link of the claim, and a text that is no URL.
\<close>

theorem parseDiscussionNumber_witness:
  "parseDiscussionNumber plain_pathname ''https://host/discussions/abc'' = Inr NaN
   \<and> parseDiscussionNumber plain_pathname ''not a url'' = Inl (InvalidDiscussionLink ''not a url'')"
  using parseDiscussionNumber_fails_only_without_url [of plain_pathname "''https://host/discussions/abc''"]
    parseDiscussionNumber_fails_only_without_url [of plain_pathname "''not a url''"]
  by (simp add: plain_pathname_def startsWith_def)

section \<open>Properties of the constructor and the accessor\<close>

text \<open>
  C4, as the code has it: the construction succeeds exactly when the token and the
  category name are non-empty strings and the error list is defined. An empty list
  is accepted.
\<close>

theorem new_SherrorClient_refuses:
  "(\<exists>c. new_SherrorClient token config = Inr c) \<longleftrightarrow>
     truthy token \<and> truthy (category_name config) \<and> errors config \<noteq> None"
  by (auto simp: new_SherrorClient_def truthy_def split: option.splits)

text \<open>
  C4, witness: an empty list is accepted, an empty category name is refused.
\<close>

theorem new_SherrorClient_refuses_witness:
  "(\<exists>c. new_SherrorClient (Some ''token'') (example_config []) = Inr c)
   \<and> \<not> (\<exists>c. new_SherrorClient (Some ''token'')
              \<lparr>category_name = Some [], errors = Some [error_1]\<rparr> = Inr c)"
  using new_SherrorClient_refuses [of "Some ''token''" "example_config []"]
    new_SherrorClient_refuses [of "Some ''token''" "\<lparr>category_name = Some [], errors = Some [error_1]\<rparr>"]
  by (simp add: truthy_def example_config_def)

text \<open>
  C4, counterexample: with a token and a category name, the construction with an
  empty error list succeeds.
\<close>

theorem new_SherrorClient_empty_errors_counterexample:
  "new_SherrorClient (Some ''token'') \<lparr>category_name = Some ''sherror-example'', errors = Some []\<rparr>
     = Inr \<lparr>ghToken = ''token'',
            sherrorConfig = \<lparr>category_name = Some ''sherror-example'', errors = Some []\<rparr>\<rparr>"
  by (simp add: new_SherrorClient_def truthy_def)

lemma find_first: "\<forall>x\<in>set pre. \<not> P x \<Longrightarrow> P e \<Longrightarrow> find P (pre @ e # post) = Some e"
  by (induction pre) auto

text \<open>
  C7: for a code that no entry has, \<^verbatim>\<open>get\<close> fails with "Error code not found"
  and returns no value; for a code that several entries have, it returns the first of
  them in the order of the list (its message styled).
\<close>

theorem get_absent_and_first_match:
  assumes "errors cfg = Some errs"
  shows "((\<forall>e\<in>set errs. error_code e \<noteq> code) \<longrightarrow> get colorize cfg code = Inl (ErrorCodeNotFound code))
       \<and> (errs = pre @ e # post \<and> error_code e = code' \<and> (\<forall>x\<in>set pre. error_code x \<noteq> code') \<longrightarrow>
            get colorize cfg code' = Inr (e\<lparr>app_message := colorize (app_message e)\<rparr>))"
proof (intro conjI impI)
  assume "\<forall>e\<in>set errs. error_code e \<noteq> code"
  then have "find (\<lambda>e. error_code e = code) errs = None"
    by (simp add: find_None_iff)
  then show "get colorize cfg code = Inl (ErrorCodeNotFound code)"
    using assms by (simp add: get_def)
next
  assume "errs = pre @ e # post \<and> error_code e = code' \<and> (\<forall>x\<in>set pre. error_code x \<noteq> code')"
  then have "find (\<lambda>e. error_code e = code') errs = Some e"
    using find_first[of pre "\<lambda>e. error_code e = code'" e post] by simp
  then show "get colorize cfg code' = Inr (e\<lparr>app_message := colorize (app_message e)\<rparr>)"
    using assms by (simp add: get_def)
qed

text \<open>
  C7, witness: a list in which two entries have the code 1 and none has the code 3.
\<close>

theorem get_witness:
  "get id (example_config [error_2, error_1, error_1_again]) 3 = Inl (ErrorCodeNotFound 3)
   \<and> get id (example_config [error_2, error_1, error_1_again]) 1 = Inr error_1"
proof -
  have cfg: "errors (example_config [error_2, error_1, error_1_again])
      = Some [error_2, error_1, error_1_again]"
    by (simp add: example_config_def)
  note t = get_absent_and_first_match [OF cfg, of 3 id "[error_2]" error_1 "[error_1_again]" 1]
  have "get id (example_config [error_2, error_1, error_1_again]) 3 = Inl (ErrorCodeNotFound 3)"
    using t [THEN conjunct1] by (simp add: error_1_def error_2_def error_1_again_def)
  moreover have "get id (example_config [error_2, error_1, error_1_again]) 1 = Inr error_1"
    using t [THEN conjunct2] by (simp add: error_1_def error_2_def)
  ultimately show ?thesis by simp
qed

section \<open>Properties of the synchronization\<close>

lemmas entry_unfold = sync_entry_def requestGraphQL_def set_link_def Let_def issued_def
lemmas entry_splits = prod.splits option.splits if_splits sum.splits response.splits fetch_result.splits

lemma sync_entry_calls:
  assumes "sync_entry G U owner repo repoId catId i err updated s = (r, s')"
  shows "calls s' = calls s @ issued s s' \<and> (\<forall>ev\<in>set (issued s s'). entry ev = Some i)
     \<and> (\<forall>ow re n d. Event (Some i) (GetDiscussion ow re n) (Data (DiscussionData (Some (Some d)))) \<in> set (issued s s')
            \<and> post_title err = Some (disc_title d) \<and> post_body err = Some (disc_body d)
          \<longrightarrow> (\<forall>ev\<in>set (issued s s'). \<not> is_update (sent ev)))"
  using assms
  by (auto simp: entry_unfold split: entry_splits)

lemma sync_entry_frame:
  assumes "sync_entry G U owner repo repoId catId i err updated s = (r, s')"
  shows "writebacks s' = writebacks s \<and> artifact s' = artifact s \<and> origin s' = origin s
     \<and> console s' = console s \<and> ghToken s' = ghToken s
     \<and> category_name (sherrorConfig s') = category_name (sherrorConfig s)
     \<and> layout s' = layout s"
  using assms
  by (auto simp: entry_unfold split: entry_splits)

lemma sync_entry_errors:
  assumes "sync_entry G U owner repo repoId catId i err updated s = (r, s')"
    and "errors (sherrorConfig s) = Some errs"
  shows "((\<forall>ev\<in>set (issued s s'). \<not> is_create (sent ev)) \<longrightarrow> sherrorConfig s' = sherrorConfig s)
     \<and> (errors (sherrorConfig s') = Some errs
          \<or> (\<exists>url. errors (sherrorConfig s') = Some (errs[i := (errs ! i)\<lparr>discussion_link := Some url\<rparr>])))
     \<and> (\<forall>rq url. Event (Some i) rq (Data (CreateDiscussionData url)) \<in> set (issued s s') \<and> is_create rq
          \<longrightarrow> errors (sherrorConfig s') = Some (errs[i := (errs ! i)\<lparr>discussion_link := Some url\<rparr>]))
     \<and> (\<forall>u. r = Inr u \<longrightarrow> u = (updated \<or> (\<exists>ev\<in>set (issued s s'). is_create (sent ev))))"
  using assms
  by (auto simp: entry_unfold split: entry_splits)


lemma sync_loop_done:
  "errors (sherrorConfig s) = Some errs \<Longrightarrow> \<not> k < length errs \<Longrightarrow>
   sync_loop G U owner repo repoId catId k updated s = (Inr updated, s)"
  by simp

lemma sync_loop_fail:
  "errors (sherrorConfig s) = Some errs \<Longrightarrow> k < length errs \<Longrightarrow>
   sync_entry G U owner repo repoId catId k (errs ! k) updated s = (Inl e, s1) \<Longrightarrow>
   sync_loop G U owner repo repoId catId k updated s = (Inl e, s1)"
  by simp

lemma sync_loop_step:
  "errors (sherrorConfig s) = Some errs \<Longrightarrow> k < length errs \<Longrightarrow>
   sync_entry G U owner repo repoId catId k (errs ! k) updated s = (Inr u, s1) \<Longrightarrow>
   sync_loop G U owner repo repoId catId k updated s
     = sync_loop G U owner repo repoId catId (Suc k) u s1"
  by simp

declare sync_loop.simps [simp del]

lemma issued_self [simp]: "issued s s = []"
  by (simp add: issued_def)

lemma issued_trans:
  "calls s1 = calls s @ issued s s1 \<Longrightarrow> calls s' = calls s1 @ issued s1 s' \<Longrightarrow>
   calls s' = calls s @ issued s s' \<and> issued s s' = issued s s1 @ issued s1 s'"
  by (metis append.assoc append_eq_conv_conj issued_def)

lemma same_but_link_fields:
  "same_but_link a b \<Longrightarrow> post_title a = post_title b \<and> post_body a = post_body b"
  by (cases a, cases b) (simp add: same_but_link_def)

lemma sync_entry_same:
  assumes "sync_entry G U owner repo repoId catId i (errs ! i) updated s = (r, s1)"
    and "errors (sherrorConfig s) = Some errs" and "i < length errs"
  shows "\<exists>errs1. errors (sherrorConfig s1) = Some errs1 \<and> length errs1 = length errs
     \<and> (\<forall>j<length errs. same_but_link (errs1 ! j) (errs ! j))
     \<and> (\<forall>j. j \<noteq> i \<longrightarrow> errs1 ! j = errs ! j)"
proof -
  from sync_entry_errors[OF assms(1,2)]
  consider "errors (sherrorConfig s1) = Some errs"
    | url where "errors (sherrorConfig s1) = Some (errs[i := (errs ! i)\<lparr>discussion_link := Some url\<rparr>])"
    by blast
  then show ?thesis
  proof cases
    case 1
    then show ?thesis by (simp add: same_but_link_def)
  next
    case 2
    then show ?thesis using assms(3)
      by (auto simp: same_but_link_def nth_list_update)
  qed
qed

lemma sync_loop_basic:
  assumes "sync_loop G U owner repo repoId catId k updated s = (r, s')"
    and "errors (sherrorConfig s) = Some errs"
  shows "\<exists>errs'. errors (sherrorConfig s') = Some errs' \<and> length errs' = length errs
     \<and> calls s' = calls s @ issued s s'
     \<and> writebacks s' = writebacks s \<and> artifact s' = artifact s \<and> origin s' = origin s
     \<and> console s' = console s
     \<and> category_name (sherrorConfig s') = category_name (sherrorConfig s)
     \<and> (\<forall>ev\<in>set (issued s s'). \<exists>j. entry ev = Some j \<and> k \<le> j \<and> j < length errs)
     \<and> (\<forall>j<length errs. same_but_link (errs' ! j) (errs ! j))
     \<and> (\<forall>j<k. errs' ! j = errs ! j)
     \<and> layout s' = layout s"
  using assms
proof (induction "length errs - k" arbitrary: k updated s errs rule: less_induct)
  case less
  show ?case
  proof (cases "k < length errs")
    case False
    with less.prems sync_loop_done[of s errs k] have "s' = s" by simp
    with less.prems show ?thesis by (simp add: same_but_link_def)
  next
    case True
    obtain r1 s1 where e: "sync_entry G U owner repo repoId catId k (errs ! k) updated s = (r1, s1)"
      by (cases "sync_entry G U owner repo repoId catId k (errs ! k) updated s")
    note c = sync_entry_calls[OF e] and f = sync_entry_frame[OF e]
    from sync_entry_same[OF e less.prems(2) True] obtain errs1 where
      errs1: "errors (sherrorConfig s1) = Some errs1" "length errs1 = length errs"
        "\<forall>j<length errs. same_but_link (errs1 ! j) (errs ! j)"
        "\<forall>j. j \<noteq> k \<longrightarrow> errs1 ! j = errs ! j" by blast
    show ?thesis
    proof (cases r1)
      case (Inl err)
      with sync_loop_fail[OF less.prems(2) True] e less.prems(1) have "s' = s1" by simp
      with c f errs1 True show ?thesis by auto
    next
      case (Inr u)
      with sync_loop_step[OF less.prems(2) True] e less.prems(1)
      have loop: "sync_loop G U owner repo repoId catId (Suc k) u s1 = (r, s')" by simp
      have "length errs1 - Suc k < length errs - k" using True errs1(2) by simp
      from less.hyps[OF this loop errs1(1)] obtain errs' where
        IH: "errors (sherrorConfig s') = Some errs'" "length errs' = length errs1"
          "calls s' = calls s1 @ issued s1 s'"
          "writebacks s' = writebacks s1" "artifact s' = artifact s1" "origin s' = origin s1"
          "console s' = console s1"
          "category_name (sherrorConfig s') = category_name (sherrorConfig s1)"
          "\<forall>ev\<in>set (issued s1 s'). \<exists>j. entry ev = Some j \<and> Suc k \<le> j \<and> j < length errs1"
          "\<forall>j<length errs1. same_but_link (errs' ! j) (errs1 ! j)"
          "\<forall>j<Suc k. errs' ! j = errs1 ! j" "layout s' = layout s1" by blast
      have tr: "calls s' = calls s @ issued s s'" "issued s s' = issued s s1 @ issued s1 s'"
        using issued_trans[OF conjunct1[OF c] IH(3)] by blast+
      have tags: "\<forall>ev\<in>set (issued s s'). \<exists>j. entry ev = Some j \<and> k \<le> j \<and> j < length errs"
        using c IH(9) True errs1(2) tr(2) by (auto simp: le_Suc_eq)
      have same: "\<forall>j<length errs. same_but_link (errs' ! j) (errs ! j)"
        using IH(10) errs1(2,3) by (simp add: same_but_link_def)
      have before: "\<forall>j<k. errs' ! j = errs ! j"
        using IH(11) errs1(4) by simp
      from IH(1,2,4-8,12) errs1(2) f tr(1) tags same before show ?thesis by simp
    qed
  qed
qed




lemma sync_loop_created:
  assumes "sync_loop G U owner repo repoId catId k updated s = (r, s')"
    and "errors (sherrorConfig s) = Some errs"
  shows "\<exists>errs'. errors (sherrorConfig s') = Some errs'
     \<and> (\<forall>u. r = Inr u \<longrightarrow> u = (updated \<or> (\<exists>ev\<in>set (issued s s'). is_create (sent ev))))
     \<and> (\<forall>i rq url. Event (Some i) rq (Data (CreateDiscussionData url)) \<in> set (issued s s') \<and> is_create rq
           \<longrightarrow> i < length errs' \<and> discussion_link (errs' ! i) = Some url)
     \<and> ((\<forall>ev\<in>set (issued s s'). \<not> is_create (sent ev)) \<longrightarrow> errs' = errs)"
  using assms
proof (induction "length errs - k" arbitrary: k updated s errs rule: less_induct)
  case less
  show ?case
  proof (cases "k < length errs")
    case False
    with less.prems sync_loop_done[of s errs k] have "s' = s" "r = Inr updated" by simp_all
    with less.prems(2) show ?thesis by simp
  next
    case True
    obtain r1 s1 where e: "sync_entry G U owner repo repoId catId k (errs ! k) updated s = (r1, s1)"
      by (cases "sync_entry G U owner repo repoId catId k (errs ! k) updated s")
    note c = sync_entry_calls[OF e]
    note x = sync_entry_errors[OF e less.prems(2)]
    from sync_entry_same[OF e less.prems(2) True] obtain errs1 where
      errs1: "errors (sherrorConfig s1) = Some errs1" "length errs1 = length errs" by blast
    have created1: "i = k \<and> i < length errs1 \<and> discussion_link (errs1 ! i) = Some url"
      if "Event (Some i) rq (Data (CreateDiscussionData url)) \<in> set (issued s s1)" "is_create rq"
      for i rq url
    proof -
      from that(1) c have ik: "i = k" by auto
      with that x have "errors (sherrorConfig s1) = Some (errs[k := (errs ! k)\<lparr>discussion_link := Some url\<rparr>])"
        by blast
      with errs1(1) True ik show ?thesis by auto
    qed
    have none1: "errs1 = errs" if "\<forall>ev\<in>set (issued s s1). \<not> is_create (sent ev)"
      using that x errs1(1) less.prems(2) by auto
    show ?thesis
    proof (cases r1)
      case (Inl err)
      with sync_loop_fail[OF less.prems(2) True] e less.prems(1) have s': "s' = s1" "r = Inl err" by simp_all
      with errs1 created1 none1 show ?thesis by auto
    next
      case (Inr u)
      with sync_loop_step[OF less.prems(2) True] e less.prems(1)
      have loop: "sync_loop G U owner repo repoId catId (Suc k) u s1 = (r, s')" by simp
      have m: "length errs1 - Suc k < length errs - k" using True errs1(2) by simp
      from x Inr have u: "u = (updated \<or> (\<exists>ev\<in>set (issued s s1). is_create (sent ev)))" by blast
      from sync_loop_basic[OF loop errs1(1)] obtain errs' where
        b: "errors (sherrorConfig s') = Some errs'" "length errs' = length errs1"
          "calls s' = calls s1 @ issued s1 s'" "\<forall>j<Suc k. errs' ! j = errs1 ! j" by blast
      have tr: "issued s s' = issued s s1 @ issued s1 s'"
        using issued_trans[OF conjunct1[OF c] b(3)] by blast
      from less.hyps[OF m loop errs1(1)] b(1) have
        IH: "\<forall>u'. r = Inr u' \<longrightarrow> u' = (u \<or> (\<exists>ev\<in>set (issued s1 s'). is_create (sent ev)))"
          "\<forall>i rq url. Event (Some i) rq (Data (CreateDiscussionData url)) \<in> set (issued s1 s') \<and> is_create rq
             \<longrightarrow> i < length errs' \<and> discussion_link (errs' ! i) = Some url"
          "(\<forall>ev\<in>set (issued s1 s'). \<not> is_create (sent ev)) \<longrightarrow> errs' = errs1" by auto
      have A: "\<forall>u'. r = Inr u' \<longrightarrow> u' = (updated \<or> (\<exists>ev\<in>set (issued s s'). is_create (sent ev)))"
        using IH(1) u tr by auto
      have B: "i < length errs' \<and> discussion_link (errs' ! i) = Some url"
        if "Event (Some i) rq (Data (CreateDiscussionData url)) \<in> set (issued s s')" "is_create rq"
        for i rq url
      proof -
        from that(1) tr consider "Event (Some i) rq (Data (CreateDiscussionData url)) \<in> set (issued s s1)"
          | "Event (Some i) rq (Data (CreateDiscussionData url)) \<in> set (issued s1 s')" by auto
        then show ?thesis
        proof cases
          case 1
          from created1[OF 1 that(2)] b(2,4) show ?thesis by auto
        next
          case 2
          with IH(2) that(2) show ?thesis by blast
        qed
      qed
      have C: "(\<forall>ev\<in>set (issued s s'). \<not> is_create (sent ev)) \<longrightarrow> errs' = errs"
        using IH(3) none1 tr by auto
      from b(1) A B C show ?thesis by blast
    qed
  qed
qed


lemma writebackConfig_effect:
  assumes "writebackConfig s = (r, s')"
  shows "writebacks s' = Suc (writebacks s) \<and> calls s' = calls s
     \<and> sherrorConfig s' = sherrorConfig s \<and> world s' = world s \<and> origin s' = origin s
     \<and> (r = Inr () \<longrightarrow> (\<exists>errs file file'. errors (sherrorConfig s) = Some errs
            \<and> artifact s = Some file \<and> write_source_file (layout s) errs file = Inr file'
            \<and> artifact s' = Some file'))
     \<and> (\<forall>e. r = Inl e \<longrightarrow> artifact s' = artifact s
            \<and> (e = InvalidSherrorConfig \<and> (\<not> truthy (category_name (sherrorConfig s)) \<or> errors (sherrorConfig s) = None)
                \<or> (\<exists>se. e = Structural se)))"
  using assms
  by (auto simp: writebackConfig_def Let_def console_log_def split: option.splits if_splits sum.splits)

lemma sync_entry_error_kind:
  assumes "sync_entry G U owner repo repoId catId i err updated s = (Inl e, s')"
  shows "e \<noteq> InvalidSherrorConfig \<and> (\<forall>se. e \<noteq> Structural se)"
  using assms
  by (auto simp: sync_entry_def requestGraphQL_def parseDiscussionNumber_def Let_def split: entry_splits)

lemma sync_loop_error_kind:
  assumes "sync_loop G U owner repo repoId catId k updated s = (Inl e, s')"
    and "errors (sherrorConfig s) = Some errs"
  shows "e \<noteq> InvalidSherrorConfig \<and> (\<forall>se. e \<noteq> Structural se)"
  using assms
proof (induction "length errs - k" arbitrary: k updated s errs rule: less_induct)
  case less
  show ?case
  proof (cases "k < length errs")
    case False
    with less.prems sync_loop_done[of s errs k] show ?thesis by simp
  next
    case True
    obtain r1 s1 where e: "sync_entry G U owner repo repoId catId k (errs ! k) updated s = (r1, s1)"
      by (cases "sync_entry G U owner repo repoId catId k (errs ! k) updated s")
    from sync_entry_same[OF e less.prems(2) True] obtain errs1 where
      errs1: "errors (sherrorConfig s1) = Some errs1" "length errs1 = length errs" by blast
    show ?thesis
    proof (cases r1)
      case (Inl err)
      with sync_loop_fail[OF less.prems(2) True] e less.prems(1) have "e = err" by simp
      with e Inl sync_entry_error_kind show ?thesis by blast
    next
      case (Inr u)
      with sync_loop_step[OF less.prems(2) True] e less.prems(1)
      have loop: "sync_loop G U owner repo repoId catId (Suc k) u s1 = (Inl e, s')" by simp
      have m: "length errs1 - Suc k < length errs - k" using True errs1(2) by simp
      from less.hyps[OF m loop errs1(1)] show ?thesis .
    qed
  qed
qed


lemma parseGitRemote_error_kind:
  "parseGitRemote U remote = Inl e \<Longrightarrow> e \<noteq> Structural se"
  by (auto simp: parseGitRemote_def owner_repo_def Let_def split: if_splits list.splits option.splits)

lemma sync_decompose:
  assumes "sync G U s = (r, s')"
  shows "((\<exists>e. r = Inl e \<and> (\<forall>se. e \<noteq> Structural se)) \<and> writebacks s' = writebacks s
          \<and> sherrorConfig s' = sherrorConfig s \<and> artifact s' = artifact s
          \<and> calls s' = calls s @ issued s s'
          \<and> (\<forall>ev\<in>set (issued s s'). entry ev = None \<and> \<not> is_create (sent ev) \<and> \<not> is_update (sent ev)))
   \<or> (\<exists>owner repo repoId catId s2 lr s3 ev0 errs.
          sync_loop G U owner repo repoId catId 0 False s2 = (lr, s3)
          \<and> calls s2 = calls s @ [ev0] \<and> entry ev0 = None
          \<and> \<not> is_create (sent ev0) \<and> \<not> is_update (sent ev0)
          \<and> sherrorConfig s2 = sherrorConfig s \<and> writebacks s2 = writebacks s
          \<and> artifact s2 = artifact s
          \<and> errors (sherrorConfig s) = Some errs \<and> truthy (category_name (sherrorConfig s))
          \<and> (case lr of Inl e \<Rightarrow> r = Inl e \<and> s' = s3
              | Inr u \<Rightarrow> if u then writebackConfig s3 = (r, s') else r = Inr () \<and> s' = s3)
          \<and> layout s2 = layout s \<and> parseGitRemote U (origin s) = Inr (owner, repo))"
proof (cases "\<exists>owner repo repository category w.
     category_name (sherrorConfig s) \<noteq> None \<and> truthy (category_name (sherrorConfig s))
   \<and> errors (sherrorConfig s) \<noteq> None
   \<and> parseGitRemote U (origin s) = Inr (owner, repo)
   \<and> G (RepoInfo owner repo) (world s) = (Data (RepoInfoData (Some repository)), w)
   \<and> find (\<lambda>cat. cat_name cat = the (category_name (sherrorConfig s))) (discussionCategories repository) = Some category")
  case False
  then have "(\<exists>e. r = Inl e \<and> (\<forall>se. e \<noteq> Structural se)) \<and> writebacks s' = writebacks s
          \<and> sherrorConfig s' = sherrorConfig s \<and> artifact s' = artifact s
          \<and> calls s' = calls s @ issued s s'
          \<and> (\<forall>ev\<in>set (issued s s'). entry ev = None \<and> \<not> is_create (sent ev) \<and> \<not> is_update (sent ev))"
    using assms
    by (auto simp: sync_def requestRepositoryInfo_def requestGraphQL_def console_log_def truthy_def
        issued_def Let_def parseGitRemote_error_kind split: entry_splits)
  then show ?thesis by blast
next
  case True
  then obtain owner repo repository category w name errs where
    h: "category_name (sherrorConfig s) = Some name" "name \<noteq> []"
      "errors (sherrorConfig s) = Some errs"
      "parseGitRemote U (origin s) = Inr (owner, repo)"
      "G (RepoInfo owner repo) (world s) = (Data (RepoInfoData (Some repository)), w)"
      "find (\<lambda>cat. cat_name cat = name) (discussionCategories repository) = Some category"
    by (auto simp: truthy_def)
  define s2 where "s2 = console_log
      (Log (''Using existing category: '' @ cat_name category @ '' ('' @ cat_id category @ '')''))
      (s\<lparr>world := w, calls := calls s @ [Event None (RepoInfo owner repo)
            (Data (RepoInfoData (Some repository)))]\<rparr>)"
  obtain lr s3 where loop:
    "sync_loop G U owner repo (repo_id repository) (cat_id category) 0 False s2 = (lr, s3)"
    by (cases "sync_loop G U owner repo (repo_id repository) (cat_id category) 0 False s2")
  have r: "(case lr of Inl e \<Rightarrow> r = Inl e \<and> s' = s3
              | Inr u \<Rightarrow> if u then writebackConfig s3 = (r, s') else r = Inr () \<and> s' = s3)"
    using assms h loop unfolding s2_def
    by (auto simp: sync_def requestRepositoryInfo_def requestGraphQL_def Let_def split: sum.splits)
  have s2: "calls s2 = calls s @ [Event None (RepoInfo owner repo) (Data (RepoInfoData (Some repository)))]"
     "sherrorConfig s2 = sherrorConfig s" "writebacks s2 = writebacks s" "artifact s2 = artifact s"
     "layout s2 = layout s"
    by (simp_all add: s2_def console_log_def)
  have "truthy (category_name (sherrorConfig s))" using h by (simp add: truthy_def)
  with loop r s2 h(3,4) show ?thesis
    by (intro disjI2 exI[of _ owner] exI[of _ repo] exI[of _ "repo_id repository"]
        exI[of _ "cat_id category"] exI[of _ s2] exI[of _ lr] exI[of _ s3]
        exI[of _ "Event None (RepoInfo owner repo) (Data (RepoInfoData (Some repository)))"]
        exI[of _ errs]) simp
qed


lemma issued_append: "calls s' = calls s @ evs \<Longrightarrow> issued s s' = evs"
  by (simp add: issued_def)

text \<open>What a run of sync that reaches its loop consists of.\<close>

lemma sync_reaches_loop:
  assumes "sync G U s = (r, s')"
    and "\<exists>ev\<in>set (issued s s'). entry ev \<noteq> None \<or> is_create (sent ev) \<or> is_update (sent ev)"
  obtains owner repo repoId catId s2 lr s3 ev0 errs where
    "sync_loop G U owner repo repoId catId 0 False s2 = (lr, s3)"
    "errors (sherrorConfig s2) = Some errs" "sherrorConfig s2 = sherrorConfig s"
    "writebacks s2 = writebacks s" "artifact s2 = artifact s"
    "entry ev0 = None" "\<not> is_create (sent ev0)" "\<not> is_update (sent ev0)"
    "issued s s' = ev0 # issued s2 s3"
    "sherrorConfig s' = sherrorConfig s3"
    "case lr of Inl e \<Rightarrow> r = Inl e \<and> s' = s3
       | Inr u \<Rightarrow> if u then writebackConfig s3 = (r, s') else r = Inr () \<and> s' = s3"
    "truthy (category_name (sherrorConfig s))"
    "layout s2 = layout s" "parseGitRemote U (origin s) = Inr (owner, repo)"
  using sync_decompose[OF assms(1)]
proof (elim disjE exE conjE)
  assume "\<forall>ev\<in>set (issued s s'). entry ev = None \<and> \<not> is_create (sent ev) \<and> \<not> is_update (sent ev)"
  with assms(2) have False by auto
  then show thesis ..
next
  fix owner repo repoId catId s2 lr s3 ev0 errs
  assume d: "sync_loop G U owner repo repoId catId 0 False s2 = (lr, s3)"
      "calls s2 = calls s @ [ev0]" "entry ev0 = None"
      "\<not> is_create (sent ev0)" "\<not> is_update (sent ev0)"
      "sherrorConfig s2 = sherrorConfig s" "writebacks s2 = writebacks s"
      "artifact s2 = artifact s" "errors (sherrorConfig s) = Some errs"
      "truthy (category_name (sherrorConfig s))"
      "case lr of Inl e \<Rightarrow> r = Inl e \<and> s' = s3
         | Inr u \<Rightarrow> if u then writebackConfig s3 = (r, s') else r = Inr () \<and> s' = s3"
      "layout s2 = layout s" "parseGitRemote U (origin s) = Inr (owner, repo)"
  have e2: "errors (sherrorConfig s2) = Some errs" using d(6,9) by simp
  from sync_loop_basic[OF d(1) e2] have c3: "calls s3 = calls s2 @ issued s2 s3" by blast
  have c': "calls s' = calls s3 \<and> sherrorConfig s' = sherrorConfig s3"
  proof (cases lr)
    case (Inl e)
    with d(11) show ?thesis by simp
  next
    case (Inr u)
    with d(11) writebackConfig_effect[of s3 r s'] show ?thesis by (cases u) auto
  qed
  with c3 d(2) have "calls s' = calls s @ (ev0 # issued s2 s3)" by simp
  then have "issued s s' = ev0 # issued s2 s3" by (rule issued_append)
  with d e2 c' show thesis by (intro that[of owner repo repoId catId s2 lr s3 errs ev0]) simp_all
qed


text \<open>
  C2, as the code has it. A run of \<^verbatim>\<open>sync\<close> calls the writeback once when its
  loop went through all entries and created a discussion (the run then returns, or
  fails inside the writeback), and not at all otherwise: not in a run without a
  create, and not in a run that stops inside the loop, whatever it created before.
  So no run calls it more than once. Every URL that a create returned is the link of
  its entry in memory at the end of the run, which is the configuration that the
  writeback wrote: after a run that returns and has created, the artifact is the old
  one rewritten with the final list. A run without a create leaves the artifact and
  the configuration as they were.
\<close>

theorem sync_writeback_once:
  assumes "sync G U s = (r, s')"
  shows "writebacks s' = writebacks s +
           (if (r = Inr () \<or> (\<exists>se. r = Inl (Structural se)))
               \<and> (\<exists>ev\<in>set (issued s s'). is_create (sent ev)) then 1 else 0)
       \<and> (\<forall>i rq url. Event (Some i) rq (Data (CreateDiscussionData url)) \<in> set (issued s s')
              \<and> is_create rq \<longrightarrow>
            (\<exists>errs'. errors (sherrorConfig s') = Some errs' \<and> i < length errs'
               \<and> discussion_link (errs' ! i) = Some url))
       \<and> (r = Inr () \<and> (\<exists>ev\<in>set (issued s s'). is_create (sent ev)) \<longrightarrow>
            (\<exists>errs' file file'. errors (sherrorConfig s') = Some errs' \<and> artifact s = Some file
               \<and> write_source_file (layout s) errs' file = Inr file' \<and> artifact s' = Some file'))
       \<and> ((\<forall>ev\<in>set (issued s s'). \<not> is_create (sent ev)) \<longrightarrow>
            artifact s' = artifact s \<and> sherrorConfig s' = sherrorConfig s)"
proof (cases "\<exists>ev\<in>set (issued s s'). entry ev \<noteq> None \<or> is_create (sent ev) \<or> is_update (sent ev)")
  case False
  then have quiet: "\<forall>ev\<in>set (issued s s'). entry ev = None \<and> \<not> is_create (sent ev)" by blast
  from sync_decompose[OF assms] show ?thesis
  proof (elim disjE exE conjE)
    assume "writebacks s' = writebacks s" "sherrorConfig s' = sherrorConfig s" "artifact s' = artifact s"
    with quiet show ?thesis by auto
  next
    fix owner repo repoId catId s2 lr s3 ev0 errs
    assume d: "sync_loop G U owner repo repoId catId 0 False s2 = (lr, s3)"
      "calls s2 = calls s @ [ev0]" "sherrorConfig s2 = sherrorConfig s"
      "writebacks s2 = writebacks s" "artifact s2 = artifact s"
      "errors (sherrorConfig s) = Some errs"
      "case lr of Inl e \<Rightarrow> r = Inl e \<and> s' = s3
         | Inr u \<Rightarrow> if u then writebackConfig s3 = (r, s') else r = Inr () \<and> s' = s3"
    have e2: "errors (sherrorConfig s2) = Some errs" using d(3,6) by simp
    note b = sync_loop_basic[OF d(1) e2]
    from b have c3: "calls s3 = calls s2 @ issued s2 s3" by blast
    have "lr \<noteq> Inr True"
    proof
      assume t: "lr = Inr True"
      with d(7) have "calls s' = calls s3" using writebackConfig_effect[of s3 r s'] by simp
      with c3 d(2) have "issued s s' = ev0 # issued s2 s3" by (intro issued_append) simp
      moreover from sync_loop_created[OF d(1) e2] t
      have "\<exists>ev\<in>set (issued s2 s3). is_create (sent ev)" by blast
      ultimately show False using quiet by auto
    qed
    then have s': "s' = s3" "r = Inr () \<or> (\<exists>e. r = Inl e)" using d(7) by (auto split: sum.splits if_splits)
    with c3 d(2) have iss: "issued s s' = ev0 # issued s2 s3" by (intro issued_append) simp
    with quiet have none: "\<forall>ev\<in>set (issued s2 s3). \<not> is_create (sent ev)" by simp
    from sync_loop_created[OF d(1) e2] none have "errors (sherrorConfig s3) = Some errs" by blast
    moreover from b have "category_name (sherrorConfig s3) = category_name (sherrorConfig s2)"
      "writebacks s3 = writebacks s2" "artifact s3 = artifact s2" by blast+
    ultimately have "sherrorConfig s3 = sherrorConfig s" "writebacks s3 = writebacks s"
        "artifact s3 = artifact s"
      using d(3,4,5,6) by (simp_all add: sherror_config.equality)
    with s' quiet show ?thesis by auto
  qed
next
  case True
  then show ?thesis
  proof (rule sync_reaches_loop[OF assms])
  fix owner repo repoId catId s2 lr s3 ev0 errs
  assume d: "sync_loop G U owner repo repoId catId 0 False s2 = (lr, s3)"
      "errors (sherrorConfig s2) = Some errs" "sherrorConfig s2 = sherrorConfig s"
      "writebacks s2 = writebacks s" "artifact s2 = artifact s"
      "entry ev0 = None" "\<not> is_create (sent ev0)" "\<not> is_update (sent ev0)"
      "issued s s' = ev0 # issued s2 s3"
      "sherrorConfig s' = sherrorConfig s3"
      "case lr of Inl e \<Rightarrow> r = Inl e \<and> s' = s3
         | Inr u \<Rightarrow> if u then writebackConfig s3 = (r, s') else r = Inr () \<and> s' = s3"
      "truthy (category_name (sherrorConfig s))"
      "layout s2 = layout s"
  note b = sync_loop_basic[OF d(1) d(2)]
  from b have f3: "writebacks s3 = writebacks s2" "artifact s3 = artifact s2"
    "category_name (sherrorConfig s3) = category_name (sherrorConfig s2)"
    "layout s3 = layout s2" by blast+
  from sync_loop_created[OF d(1) d(2)] obtain errs' where
    cr: "errors (sherrorConfig s3) = Some errs'"
      "\<forall>u. lr = Inr u \<longrightarrow> u = (\<exists>ev\<in>set (issued s2 s3). is_create (sent ev))"
      "\<forall>i rq url. Event (Some i) rq (Data (CreateDiscussionData url)) \<in> set (issued s2 s3) \<and> is_create rq
         \<longrightarrow> i < length errs' \<and> discussion_link (errs' ! i) = Some url"
      "(\<forall>ev\<in>set (issued s2 s3). \<not> is_create (sent ev)) \<longrightarrow> errs' = errs" by auto
  have created_iff: "(\<exists>ev\<in>set (issued s s'). is_create (sent ev))
      \<longleftrightarrow> (\<exists>ev\<in>set (issued s2 s3). is_create (sent ev))"
    using d(7,9) by simp
  have recorded: "\<forall>i rq url. Event (Some i) rq (Data (CreateDiscussionData url)) \<in> set (issued s s')
              \<and> is_create rq \<longrightarrow>
            (\<exists>errs'. errors (sherrorConfig s') = Some errs' \<and> i < length errs'
               \<and> discussion_link (errs' ! i) = Some url)"
    using cr(1,3) d(6,9,10) by auto
  show ?thesis
  proof (cases lr)
    case (Inl e)
    with d(11) have s': "r = Inl e" "s' = s3" by simp_all
    from sync_loop_error_kind[OF _ d(2)] d(1) Inl have "\<forall>se. e \<noteq> Structural se" by blast
    with s' f3 d(3,4,5) cr(1,4) d(2) created_iff recorded show ?thesis
      by (auto simp: sherror_config.equality)
  next
    case (Inr u)
    show ?thesis
    proof (cases u)
      case False
      with Inr d(11) have s': "r = Inr ()" "s' = s3" by simp_all
      from cr(2) Inr False have "\<not> (\<exists>ev\<in>set (issued s2 s3). is_create (sent ev))" by blast
      with s' f3 d(3,4,5) cr(1,4) d(2) created_iff recorded show ?thesis
        by (auto simp: sherror_config.equality)
    next
      case True
      with Inr d(11) have wb: "writebackConfig s3 = (r, s')" by simp
      note w = writebackConfig_effect[OF wb]
      from cr(2) Inr True have created: "\<exists>ev\<in>set (issued s2 s3). is_create (sent ev)" by blast
      from d(12) f3(3) d(3) have "truthy (category_name (sherrorConfig s3))" by simp
      with w cr(1) have kind: "r = Inr () \<or> (\<exists>se. r = Inl (Structural se))"
        by (cases r) auto
      have count: "writebacks s' = writebacks s + 1" using w f3(1) d(4) by simp
      have art: "\<exists>errs' file file'. errors (sherrorConfig s') = Some errs' \<and> artifact s = Some file
               \<and> write_source_file (layout s) errs' file = Inr file' \<and> artifact s' = Some file'"
        if "r = Inr ()"
        using that w f3(2,4) d(5,13) by auto
      from kind count art created created_iff recorded show ?thesis by auto
    qed
  qed
  qed
qed

lemmas run_defs = sync_def sync_loop.simps sync_entry_def requestRepositoryInfo_def requestGraphQL_def
  scripted_def example_system_def example_config_def example_repository_def
  parseGitRemote_def owner_repo_def strip_git_def startsWith_def endsWith_def is_http_def
  parseDiscussionNumber_def plain_pathname_def pop_or_empty_def parseInt_def is_space_def is_digit_def
  digits_val_def digit_val_def truthy_def console_log_def set_link_def issued_def
  error_1_def error_2_def Let_def

lemma sync_collapse: "sync G U s = (fst (sync G U s), snd (sync G U s))"
  by simp




lemma replace_two_elements:
  "replace_elements four_spaces [a, b] [''{}'', ''{}''] = [written a, written b]"
  by (simp add: replace_elements_def upt_rec four_spaces_def written_def)

lemma write_two_elements:
  "write_elements four_spaces [a, b] [''{}'', ''{}''] = [written a, written b]"
  by (simp add: write_elements_def replace_two_elements)

lemma write_example_file:
  "write_source_file four_spaces [a, b] (example_file [''{}'', ''{}''])
     = Inr (example_file [written a, written b])"
  by (simp add: write_source_file_def write_declaration_def write_initializer_def example_file_def
      write_two_elements)

lemma created_run:
  "fst (sync scripted plain_pathname (example_system [error_1, error_2] created_script)) = Inr ()"
  "map sent (issued (example_system [error_1, error_2] created_script)
     (snd (sync scripted plain_pathname (example_system [error_1, error_2] created_script))))
   = [RepoInfo ''polyseam'' ''sherror'', GetDiscussion ''polyseam'' ''sherror'' (Num 27),
      CreateDiscussion ''R_1'' ''C_1'' ''Error 2: `bar` must be defined'' ''consult the orb'']"
  "errors (sherrorConfig (snd (sync scripted plain_pathname (example_system [error_1, error_2] created_script))))
   = Some [error_1, error_2_linked]"
  "artifact (snd (sync scripted plain_pathname (example_system [error_1, error_2] created_script)))
   = Some (example_file [written error_1, written error_2_linked])"
  by (simp_all add: run_defs created_script_def error_2_linked_def writebackConfig_def
      write_example_file)

text \<open>
  C2, witness: the second entry of the example has no link. The run creates
  discussion 28, records its URL in the entry and writes back once, with both links.
\<close>

theorem sync_writeback_once_witness:
  "fst (sync scripted plain_pathname (example_system [error_1, error_2] created_script)) = Inr ()
   \<and> writebacks (snd (sync scripted plain_pathname (example_system [error_1, error_2] created_script))) = 1
   \<and> errors (sherrorConfig (snd (sync scripted plain_pathname (example_system [error_1, error_2] created_script))))
       = Some [error_1, error_2_linked]
   \<and> artifact (snd (sync scripted plain_pathname (example_system [error_1, error_2] created_script)))
       = Some (example_file [written error_1, written error_2_linked])"
proof -
  let ?s = "example_system [error_1, error_2] created_script"
  let ?s' = "snd (sync scripted plain_pathname ?s)"
  note t = sync_writeback_once [OF sync_collapse, of scripted plain_pathname ?s, THEN conjunct1]
  have "\<exists>ev\<in>set (issued ?s ?s'). is_create (sent ev)"
  proof -
    have "\<exists>rq\<in>set (map sent (issued ?s ?s')). is_create rq"
      unfolding created_run(2) by simp
    then show ?thesis by auto
  qed
  with t created_run(1) have "writebacks ?s' = writebacks ?s + 1" by simp
  then have "writebacks ?s' = 1" by (simp add: example_system_def)
  with created_run(1,3,4) show ?thesis by blast
qed

text \<open>
  C2, counterexample: the entry without a link comes first and the discussion of the
  other entry is not found. The run has created discussion 28 and recorded its URL,
  then stops with "Discussion not found" and never calls the writeback.
\<close>

theorem sync_abort_after_create_counterexample:
  "fst (sync scripted plain_pathname (example_system [error_2, error_1] aborted_script))
     = Inl (DiscussionNotFound (Num 27))
   \<and> map sent (calls (snd (sync scripted plain_pathname (example_system [error_2, error_1] aborted_script))))
     = [RepoInfo ''polyseam'' ''sherror'',
        CreateDiscussion ''R_1'' ''C_1'' ''Error 2: `bar` must be defined'' ''consult the orb'',
        GetDiscussion ''polyseam'' ''sherror'' (Num 27)]
   \<and> errors (sherrorConfig (snd (sync scripted plain_pathname (example_system [error_2, error_1] aborted_script))))
     = Some [error_2_linked, error_1]
   \<and> writebacks (snd (sync scripted plain_pathname (example_system [error_2, error_1] aborted_script))) = 0"
  by (simp add: run_defs aborted_script_def error_2_linked_def)


lemma category_help_lists:
  "\<exists>pre post. category_help name owner repo nodes
     = pre @ join newline (map (\<lambda>c. ''- '' @ cat_name c) nodes) @ post"
proof -
  let ?pre = "newline @ ''Error: Discussion category '' @ dquote @ name @ dquote @ '' not found in '' @
           owner @ ''/'' @ repo @ ''.'' @ newline @ newline @ ''Available categories:'' @ newline"
  have "\<exists>post. category_help name owner repo nodes
     = ?pre @ join newline (map (\<lambda>c. ''- '' @ cat_name c) nodes) @ post"
    by (simp add: category_help_def)
  then show ?thesis by blast
qed

lemma join_contains: "x \<in> set xs \<Longrightarrow> \<exists>pre post. join sep xs = pre @ x @ post"
proof (induction sep xs rule: join.induct)
  case (1 sep)
  then show ?case by simp
next
  case (2 sep y)
  then have "join sep [y] = [] @ x @ []" by simp
  then show ?case by blast
next
  case (3 sep y z zs)
  show ?case
  proof (cases "x = y")
    case True
    then have "join sep (y # z # zs) = [] @ x @ (sep @ join sep (z # zs))" by simp
    then show ?thesis by blast
  next
    case False
    with 3 obtain pre post where "join sep (z # zs) = pre @ x @ post" by auto
    then have "join sep (y # z # zs) = (y @ sep @ pre) @ x @ post" by simp
    then show ?thesis by blast
  qed
qed

text \<open>
  C3: when the repository lookup succeeds and none of its categories has the
  configured name, \<^verbatim>\<open>sync\<close> fails with "Discussion category not found and
  cannot be created programmatically"; it has sent the lookup and nothing else (no
  create, no update, no creation of a category), has not touched the configuration
  or the artifact, and has printed a text that has a line with the name of every
  category that exists.
\<close>

theorem sync_category_not_found:
  assumes "category_name (sherrorConfig s) = Some name" and "name \<noteq> []"
    and "errors (sherrorConfig s) = Some errs"
    and "parseGitRemote U (origin s) = Inr (owner, repo)"
    and "G (RepoInfo owner repo) (world s) = (Data (RepoInfoData (Some repository)), w)"
    and "\<forall>c\<in>set (discussionCategories repository). cat_name c \<noteq> name"
  shows "sync G U s =
           (Inl (CategoryNotFound name),
            s\<lparr>world := w,
              console := console s @
                [Log (category_help name owner repo (discussionCategories repository))],
              calls := calls s @
                [Event None (RepoInfo owner repo) (Data (RepoInfoData (Some repository)))]\<rparr>)
       \<and> (\<forall>c\<in>set (discussionCategories repository).
            \<exists>pre post. category_help name owner repo (discussionCategories repository)
              = pre @ ''- '' @ cat_name c @ post)"
proof
  have "find (\<lambda>cat. cat_name cat = name) (discussionCategories repository) = None"
    using assms(6) by (simp add: find_None_iff)
  with assms(1-5) show "sync G U s =
           (Inl (CategoryNotFound name),
            s\<lparr>world := w,
              console := console s @
                [Log (category_help name owner repo (discussionCategories repository))],
              calls := calls s @
                [Event None (RepoInfo owner repo) (Data (RepoInfoData (Some repository)))]\<rparr>)"
    by (simp add: sync_def requestRepositoryInfo_def requestGraphQL_def console_log_def)
next
  show "\<forall>c\<in>set (discussionCategories repository).
            \<exists>pre post. category_help name owner repo (discussionCategories repository)
              = pre @ ''- '' @ cat_name c @ post"
  proof
    fix c assume "c \<in> set (discussionCategories repository)"
    then have "''- '' @ cat_name c \<in> set (map (\<lambda>c. ''- '' @ cat_name c) (discussionCategories repository))"
      by auto
    from join_contains[OF this, of newline] obtain p1 q1 where
      j: "join newline (map (\<lambda>c. ''- '' @ cat_name c) (discussionCategories repository))
          = p1 @ (''- '' @ cat_name c) @ q1" by blast
    from category_help_lists[of name owner repo "discussionCategories repository"]
    obtain p2 q2 where "category_help name owner repo (discussionCategories repository)
       = p2 @ join newline (map (\<lambda>c. ''- '' @ cat_name c) (discussionCategories repository)) @ q2"
      by blast
    with j have "category_help name owner repo (discussionCategories repository)
       = (p2 @ p1) @ ''- '' @ cat_name c @ (q1 @ q2)" by simp
    then show "\<exists>pre post. category_help name owner repo (discussionCategories repository)
              = pre @ ''- '' @ cat_name c @ post" by blast
  qed
qed

text \<open>
  C3, witness: the platform has the categories General and Ideas only.
\<close>

theorem sync_category_not_found_witness:
  "sync scripted plain_pathname (example_system [error_2] [Data (RepoInfoData (Some other_repository))])
     = (Inl (CategoryNotFound ''sherror-example''),
        (example_system [error_2] [])
          \<lparr>console := [Log (category_help ''sherror-example'' ''polyseam'' ''sherror''
              [Category ''C_0'' ''General'', Category ''C_2'' ''Ideas''])],
           calls := [Event None (RepoInfo ''polyseam'' ''sherror'')
              (Data (RepoInfoData (Some other_repository)))]\<rparr>)"
proof -
  let ?s = "example_system [error_2] [Data (RepoInfoData (Some other_repository))]"
  have h: "category_name (sherrorConfig ?s) = Some ''sherror-example''" "''sherror-example'' \<noteq> []"
    "errors (sherrorConfig ?s) = Some [error_2]"
    by (simp_all add: example_system_def example_config_def)
  have p: "parseGitRemote plain_pathname (origin ?s) = Inr (''polyseam'', ''sherror'')"
    by (simp add: example_system_def parseGitRemote_def owner_repo_def strip_git_def
        startsWith_def endsWith_def)
  have g: "scripted (RepoInfo ''polyseam'' ''sherror'') (world ?s)
      = (Data (RepoInfoData (Some other_repository)), [])"
    by (simp add: scripted_def example_system_def)
  have n: "\<forall>c\<in>set (discussionCategories other_repository). cat_name c \<noteq> ''sherror-example''"
    by (simp add: other_repository_def)
  from sync_category_not_found [of ?s "''sherror-example''" "[error_2]" plain_pathname
      "''polyseam''" "''sherror''" scripted other_repository "[]", OF h p g n, THEN conjunct1]
  show ?thesis by (simp add: example_system_def other_repository_def)
qed

section \<open>Properties of the bulk clear\<close>

lemma requestGraphQL_effect:
  assumes "requestGraphQL G i req s = (r, s')"
  shows "\<exists>res w. s' = s\<lparr>world := w, calls := calls s @ [Event i req res]\<rparr>
     \<and> (is_data res \<longleftrightarrow> (\<exists>d. r = Inr d))"
  using assms
  by (auto simp: requestGraphQL_def Let_def split: prod.splits fetch_result.splits)

lemma delete_discussions_effect:
  assumes "delete_discussions G ds s = (r, s')"
  shows "calls s' = calls s @ issued s s' \<and> sherrorConfig s' = sherrorConfig s
     \<and> writebacks s' = writebacks s \<and> artifact s' = artifact s \<and> layout s' = layout s
     \<and> (\<forall>ev\<in>set (issued s s'). entry ev = None \<and> is_delete (sent ev))
     \<and> (r = Inr () \<longrightarrow> map sent (issued s s') = map (\<lambda>d. DeleteDiscussion (node_id d)) ds)
     \<and> (\<forall>e. r = Inl e \<longrightarrow> (\<exists>ev\<in>set (issued s s'). \<not> is_data (result ev)))"
  using assms
proof (induction ds arbitrary: s)
  case Nil
  then show ?case by auto
next
  case (Cons d ds)
  define s1 where "s1 = console_log
      (Log (''Deleting discussion #'' @ show_int (node_number d) @ '': '' @ node_title d)) s"
  obtain r1 s2 where q: "requestGraphQL G None (DeleteDiscussion (node_id d)) s1 = (r1, s2)"
    by (cases "requestGraphQL G None (DeleteDiscussion (node_id d)) s1")
  from requestGraphQL_effect[OF q] obtain res w where
    s2: "s2 = s1\<lparr>world := w, calls := calls s1 @ [Event None (DeleteDiscussion (node_id d)) res]\<rparr>"
    and res: "is_data res \<longleftrightarrow> (\<exists>x. r1 = Inr x)" by blast
  have c2: "calls s2 = calls s @ [Event None (DeleteDiscussion (node_id d)) res]"
    and f2: "sherrorConfig s2 = sherrorConfig s" "writebacks s2 = writebacks s" "artifact s2 = artifact s"
      "layout s2 = layout s"
    by (simp_all add: s2 s1_def console_log_def)
  show ?case
  proof (cases r1)
    case (Inl e)
    with Cons.prems q have r: "r = Inl e"
      and s': "s' = console_log
          (ConsoleError (''Failed to delete discussion #'' @ show_int (node_number d) @ '':'') e) s2"
      by (simp_all add: s1_def Let_def)
    from s' c2 have c': "calls s' = calls s @ [Event None (DeleteDiscussion (node_id d)) res]"
      by (simp add: console_log_def)
    then have i: "issued s s' = [Event None (DeleteDiscussion (node_id d)) res]"
      by (rule issued_append)
    from Inl res have "\<not> is_data res" by simp
    with r s' f2 c' i show ?thesis by (simp add: console_log_def)
  next
    case (Inr x)
    with Cons.prems q have rest: "delete_discussions G ds s2 = (r, s')"
      by (simp add: s1_def Let_def)
    note IH = Cons.IH[OF rest]
    from IH c2 have c': "calls s' = calls s @ (Event None (DeleteDiscussion (node_id d)) res # issued s2 s')"
      by simp
    then have i: "issued s s' = Event None (DeleteDiscussion (node_id d)) res # issued s2 s'"
      by (rule issued_append)
    from IH f2 c' i show ?thesis by auto
  qed
qed

lemma clear_links_effect:
  assumes "clear_links s = (r, s')" and "errors (sherrorConfig s) = Some errs"
  shows "calls s' = calls s \<and> errors (sherrorConfig s') = Some (map clear_link errs)
     \<and> writebacks s' = writebacks s + (if \<exists>e\<in>set errs. truthy (discussion_link e) then 1 else 0)
     \<and> (r = Inr () \<and> (\<exists>e\<in>set errs. truthy (discussion_link e)) \<longrightarrow>
          (\<exists>file file'. artifact s = Some file
             \<and> write_source_file (layout s) (map clear_link errs) file = Inr file' \<and> artifact s' = Some file'))
     \<and> (\<not> (\<exists>e\<in>set errs. truthy (discussion_link e)) \<longrightarrow> artifact s' = artifact s \<and> r = Inr ())"
proof (cases "\<exists>e\<in>set errs. truthy (discussion_link e)")
  case False
  with assms show ?thesis by (auto simp: clear_links_def Let_def)
next
  case True
  define s1 where "s1 = s\<lparr>sherrorConfig := (sherrorConfig s)\<lparr>errors := Some (map clear_link errs)\<rparr>\<rparr>"
  from assms True have wb: "writebackConfig s1 = (r, s')"
    by (auto simp: clear_links_def Let_def s1_def)
  from writebackConfig_effect[OF wb] True show ?thesis
    by (auto simp: s1_def)
qed

lemma clear_link_not_truthy: "\<not> truthy (discussion_link (clear_link e))"
  by (simp add: clear_link_def truthy_def)


lemma clear_empty_fetch:
  assumes "clear G U s = (r, s')"
    and "category_name (sherrorConfig s) = Some name" and "name \<noteq> []"
    and "parseGitRemote U (origin s) = Inr (owner, repo)"
    and "G (RepoInfo owner repo) (world s) = (Data (RepoInfoData (Some repository)), w)"
    and "find (\<lambda>cat. cat_name cat = name) (discussionCategories repository) = Some category"
    and "G (GetDiscussions owner repo (cat_id category)) w = (Data (DiscussionsData (Some [])), w2)"
  shows "r = Inr ()
     \<and> calls s' = calls s @
           [Event None (RepoInfo owner repo) (Data (RepoInfoData (Some repository))),
            Event None (GetDiscussions owner repo (cat_id category)) (Data (DiscussionsData (Some [])))]
     \<and> sherrorConfig s' = sherrorConfig s \<and> artifact s' = artifact s
     \<and> writebacks s' = writebacks s"
  using assms
  by (auto simp: clear_def requestRepositoryInfo_def requestGraphQL_def console_log_def Let_def)

lemma clear_deleting:
  assumes "category_name (sherrorConfig s) = Some name" and "name \<noteq> []"
    and "parseGitRemote U (origin s) = Inr (owner, repo)"
    and "G (RepoInfo owner repo) (world s) = (Data (RepoInfoData (Some repository)), w)"
    and "find (\<lambda>cat. cat_name cat = name) (discussionCategories repository) = Some category"
    and "G (GetDiscussions owner repo (cat_id category)) w = (Data (DiscussionsData (Some ds)), w2)"
    and "ds \<noteq> []"
  shows "clear G U s =
    (case delete_discussions G ds
            (console_log (Log (''Found '' @ show_nat (length ds) @ '' discussions to delete...''))
               (s\<lparr>world := w2, calls := calls s @
                  [Event None (RepoInfo owner repo) (Data (RepoInfoData (Some repository))),
                   Event None (GetDiscussions owner repo (cat_id category))
                     (Data (DiscussionsData (Some ds)))]\<rparr>)) of
       (Inl e, s4) \<Rightarrow> (Inl e, s4)
     | (Inr u, s4) \<Rightarrow>
         clear_links (console_log (Log (''Successfully deleted '' @ show_nat (length ds) @
             '' discussions from category '' @ dquote @ name @ dquote)) s4))"
  using assms
  by (simp add: clear_def requestRepositoryInfo_def requestGraphQL_def Let_def)

text \<open>
  C9, as the code has it. The category of the configured name resolves and the
  platform answers the fetch for that category with the discussions \<open>ds\<close>. When
  \<open>ds\<close> is empty, the run returns after the two lookups: configuration, artifact
  and the count of writebacks are as before. When \<open>ds\<close> is not empty and every
  deletion sent succeeds, the requests of the run are the two lookups and then one
  deletion for each fetched discussion, in the fetched order; the configuration then
  holds every entry with its non-empty link removed, so no entry has a link; and the
  writeback is called once when some entry had a non-empty link, and not at all when
  none had (when the run returns, the artifact is the old one rewritten with the
  cleared list).
\<close>

theorem clear_deletes_and_strips:
  assumes "clear G U s = (r, s')"
    and "category_name (sherrorConfig s) = Some name" and "name \<noteq> []"
    and "errors (sherrorConfig s) = Some errs"
    and "parseGitRemote U (origin s) = Inr (owner, repo)"
    and "G (RepoInfo owner repo) (world s) = (Data (RepoInfoData (Some repository)), w)"
    and "find (\<lambda>cat. cat_name cat = name) (discussionCategories repository) = Some category"
    and "G (GetDiscussions owner repo (cat_id category)) w = (Data (DiscussionsData (Some ds)), w2)"
  shows "(ds = [] \<longrightarrow>
            r = Inr ()
          \<and> map sent (issued s s') = [RepoInfo owner repo, GetDiscussions owner repo (cat_id category)]
          \<and> sherrorConfig s' = sherrorConfig s \<and> artifact s' = artifact s
          \<and> writebacks s' = writebacks s)
       \<and> (ds \<noteq> [] \<and> (\<forall>ev\<in>set (issued s s'). is_delete (sent ev) \<longrightarrow> is_data (result ev)) \<longrightarrow>
            map sent (issued s s')
              = RepoInfo owner repo # GetDiscussions owner repo (cat_id category)
                  # map (\<lambda>d. DeleteDiscussion (node_id d)) ds
          \<and> errors (sherrorConfig s') = Some (map clear_link errs)
          \<and> (\<forall>e\<in>set (map clear_link errs). \<not> truthy (discussion_link e))
          \<and> writebacks s' = writebacks s + (if \<exists>e\<in>set errs. truthy (discussion_link e) then 1 else 0)
          \<and> (r = Inr () \<and> (\<exists>e\<in>set errs. truthy (discussion_link e)) \<longrightarrow>
               (\<exists>file file'. artifact s = Some file
                  \<and> write_source_file (layout s) (map clear_link errs) file = Inr file'
                  \<and> artifact s' = Some file'))
          \<and> (\<not> (\<exists>e\<in>set errs. truthy (discussion_link e)) \<longrightarrow> r = Inr () \<and> artifact s' = artifact s))"
  (is "?empty \<and> ?full")
proof -
  have empty: ?empty
  proof
    assume e: "ds = []"
    note c = clear_empty_fetch[OF assms(1-3,5-7) assms(8)[unfolded e]]
    from c have "calls s' = calls s @
           [Event None (RepoInfo owner repo) (Data (RepoInfoData (Some repository))),
            Event None (GetDiscussions owner repo (cat_id category)) (Data (DiscussionsData (Some [])))]"
      by blast
    then have "issued s s' =
           [Event None (RepoInfo owner repo) (Data (RepoInfoData (Some repository))),
            Event None (GetDiscussions owner repo (cat_id category)) (Data (DiscussionsData (Some [])))]"
      by (rule issued_append)
    then have "map sent (issued s s') = [RepoInfo owner repo, GetDiscussions owner repo (cat_id category)]"
      by simp
    with c show "r = Inr ()
          \<and> map sent (issued s s') = [RepoInfo owner repo, GetDiscussions owner repo (cat_id category)]
          \<and> sherrorConfig s' = sherrorConfig s \<and> artifact s' = artifact s
          \<and> writebacks s' = writebacks s" by blast
  qed
  have full: ?full
  proof
    assume a: "ds \<noteq> [] \<and> (\<forall>ev\<in>set (issued s s'). is_delete (sent ev) \<longrightarrow> is_data (result ev))"
    then have ne: "ds \<noteq> []"
      and succeed: "\<forall>ev\<in>set (issued s s'). is_delete (sent ev) \<longrightarrow> is_data (result ev)" by blast+
    let ?ev0 = "Event None (RepoInfo owner repo) (Data (RepoInfoData (Some repository)))"
    let ?ev1 = "Event None (GetDiscussions owner repo (cat_id category)) (Data (DiscussionsData (Some ds)))"
    define s3 where "s3 = console_log
        (Log (''Found '' @ show_nat (length ds) @ '' discussions to delete...''))
        (s\<lparr>world := w2, calls := calls s @
                  [Event None (RepoInfo owner repo) (Data (RepoInfoData (Some repository))),
                   Event None (GetDiscussions owner repo (cat_id category))
                     (Data (DiscussionsData (Some ds)))]\<rparr>)"
    define msg where "msg = Log (''Successfully deleted '' @ show_nat (length ds) @
        '' discussions from category '' @ dquote @ name @ dquote)"
    obtain dr s4 where del: "delete_discussions G ds s3 = (dr, s4)"
      by (cases "delete_discussions G ds s3")
    note u = clear_deleting[OF assms(2,3,5-8) ne, folded s3_def msg_def]
    have s3: "calls s3 = calls s @ [?ev0, ?ev1]"
       "sherrorConfig s3 = sherrorConfig s" "writebacks s3 = writebacks s" "artifact s3 = artifact s"
       "layout s3 = layout s"
      by (simp_all add: s3_def console_log_def)
    note eff = delete_discussions_effect[OF del]
    from eff have c4: "calls s4 = calls s3 @ issued s3 s4"
      and f4: "sherrorConfig s4 = sherrorConfig s3" "writebacks s4 = writebacks s3"
        "artifact s4 = artifact s3" "layout s4 = layout s3"
      and dels: "\<forall>ev\<in>set (issued s3 s4). entry ev = None \<and> is_delete (sent ev)" by blast+
    have e4: "errors (sherrorConfig (console_log msg s4)) = Some errs"
      using f4(1) s3(2) assms(4) by (simp add: console_log_def)
    have c': "calls s' = calls s4"
    proof (cases dr)
      case (Inl e)
      with u del assms(1) show ?thesis by simp
    next
      case (Inr x)
      with u del assms(1) have "clear_links (console_log msg s4) = (r, s')" by simp
      from clear_links_effect[OF this e4] show ?thesis by (simp add: console_log_def)
    qed
    with c4 s3(1) have "calls s' = calls s @ (?ev0 # ?ev1 # issued s3 s4)" by simp
    then have iss: "issued s s' = ?ev0 # ?ev1 # issued s3 s4" by (rule issued_append)
    have "\<forall>ev\<in>set (issued s3 s4). is_data (result ev)"
      using succeed iss dels by simp
    with eff have ok: "dr = Inr ()" by (cases dr) auto
    with eff have "map sent (issued s3 s4) = map (\<lambda>d. DeleteDiscussion (node_id d)) ds"
      by blast
    with iss have first: "map sent (issued s s')
              = RepoInfo owner repo # GetDiscussions owner repo (cat_id category)
                  # map (\<lambda>d. DeleteDiscussion (node_id d)) ds" by simp
    from ok u del assms(1) have cl: "clear_links (console_log msg s4) = (r, s')" by simp
    from clear_links_effect[OF cl e4] f4 s3
    have rest: "errors (sherrorConfig s') = Some (map clear_link errs)"
      "writebacks s' = writebacks s + (if \<exists>e\<in>set errs. truthy (discussion_link e) then 1 else 0)"
      "r = Inr () \<and> (\<exists>e\<in>set errs. truthy (discussion_link e)) \<longrightarrow>
            (\<exists>file file'. artifact s = Some file
               \<and> write_source_file (layout s) (map clear_link errs) file = Inr file' \<and> artifact s' = Some file')"
      "\<not> (\<exists>e\<in>set errs. truthy (discussion_link e)) \<longrightarrow> r = Inr () \<and> artifact s' = artifact s"
      by (simp_all add: console_log_def)
    have "\<forall>e\<in>set (map clear_link errs). \<not> truthy (discussion_link e)"
      by (simp add: clear_link_not_truthy)
    with first rest show "map sent (issued s s')
              = RepoInfo owner repo # GetDiscussions owner repo (cat_id category)
                  # map (\<lambda>d. DeleteDiscussion (node_id d)) ds
          \<and> errors (sherrorConfig s') = Some (map clear_link errs)
          \<and> (\<forall>e\<in>set (map clear_link errs). \<not> truthy (discussion_link e))
          \<and> writebacks s' = writebacks s + (if \<exists>e\<in>set errs. truthy (discussion_link e) then 1 else 0)
          \<and> (r = Inr () \<and> (\<exists>e\<in>set errs. truthy (discussion_link e)) \<longrightarrow>
               (\<exists>file file'. artifact s = Some file
                  \<and> write_source_file (layout s) (map clear_link errs) file = Inr file'
                  \<and> artifact s' = Some file'))
          \<and> (\<not> (\<exists>e\<in>set errs. truthy (discussion_link e)) \<longrightarrow> r = Inr () \<and> artifact s' = artifact s)"
      by (intro conjI) assumption+
  qed
  from empty full show ?thesis by (rule conjI)
qed

lemmas clear_defs = clear_def delete_discussions.simps clear_links_def clear_link_def
  three_discussions_def

lemma clear_collapse: "clear G U s = (fst (clear G U s), snd (clear G U s))"
  by simp

lemma cleared_run:
  "fst (clear scripted plain_pathname (example_system [error_1, error_2_linked] cleared_script)) = Inr ()"
  "issued (example_system [error_1, error_2_linked] cleared_script)
     (snd (clear scripted plain_pathname (example_system [error_1, error_2_linked] cleared_script)))
   = [Event None (RepoInfo ''polyseam'' ''sherror'') (Data (RepoInfoData (Some example_repository))),
      Event None (GetDiscussions ''polyseam'' ''sherror'' ''C_1'')
        (Data (DiscussionsData (Some three_discussions))),
      Event None (DeleteDiscussion ''D_27'') (Data DeleteDiscussionData),
      Event None (DeleteDiscussion ''D_28'') (Data DeleteDiscussionData),
      Event None (DeleteDiscussion ''D_29'') (Data DeleteDiscussionData)]"
  "artifact (snd (clear scripted plain_pathname (example_system [error_1, error_2_linked] cleared_script)))
   = Some (example_file [written error_1_unlinked, written error_2])"
  by (simp_all add: run_defs clear_defs cleared_script_def error_2_linked_def error_1_unlinked_def
      writebackConfig_def write_example_file)

text \<open>
  C9, witness: three discussions in the category, two linked entries. The run
  deletes the three, removes both links and writes back once.
\<close>

theorem clear_deletes_and_strips_witness:
  "fst (clear scripted plain_pathname (example_system [error_1, error_2_linked] cleared_script)) = Inr ()
   \<and> map sent (issued (example_system [error_1, error_2_linked] cleared_script)
          (snd (clear scripted plain_pathname (example_system [error_1, error_2_linked] cleared_script))))
       = [RepoInfo ''polyseam'' ''sherror'', GetDiscussions ''polyseam'' ''sherror'' ''C_1'',
          DeleteDiscussion ''D_27'', DeleteDiscussion ''D_28'', DeleteDiscussion ''D_29'']
   \<and> errors (sherrorConfig
        (snd (clear scripted plain_pathname (example_system [error_1, error_2_linked] cleared_script))))
       = Some [error_1_unlinked, error_2]
   \<and> writebacks (snd (clear scripted plain_pathname (example_system [error_1, error_2_linked] cleared_script))) = 1
   \<and> artifact (snd (clear scripted plain_pathname (example_system [error_1, error_2_linked] cleared_script)))
       = Some (example_file [written error_1_unlinked, written error_2])"
proof -
  let ?s = "example_system [error_1, error_2_linked] cleared_script"
  let ?s' = "snd (clear scripted plain_pathname ?s)"
  have name: "category_name (sherrorConfig ?s) = Some ''sherror-example''" "''sherror-example'' \<noteq> []"
    by (simp_all add: example_system_def example_config_def)
  have errs: "errors (sherrorConfig ?s) = Some [error_1, error_2_linked]"
    by (simp add: example_system_def example_config_def)
  have remote: "parseGitRemote plain_pathname (origin ?s) = Inr (''polyseam'', ''sherror'')"
    by (simp add: example_system_def parseGitRemote_def owner_repo_def strip_git_def
        startsWith_def endsWith_def is_http_def plain_pathname_def)
  have lookup: "scripted (RepoInfo ''polyseam'' ''sherror'') (world ?s)
      = (Data (RepoInfoData (Some example_repository)),
         [Data (DiscussionsData (Some three_discussions)),
          Data DeleteDiscussionData, Data DeleteDiscussionData, Data DeleteDiscussionData])"
    by (simp add: scripted_def example_system_def cleared_script_def)
  have cat: "find (\<lambda>cat. cat_name cat = ''sherror-example'') (discussionCategories example_repository)
      = Some (Category ''C_1'' ''sherror-example'')"
    by (simp add: example_repository_def)
  have fetch: "scripted (GetDiscussions ''polyseam'' ''sherror'' (cat_id (Category ''C_1'' ''sherror-example'')))
       [Data (DiscussionsData (Some three_discussions)),
          Data DeleteDiscussionData, Data DeleteDiscussionData, Data DeleteDiscussionData]
      = (Data (DiscussionsData (Some three_discussions)),
         [Data DeleteDiscussionData, Data DeleteDiscussionData, Data DeleteDiscussionData])"
    by (simp add: scripted_def)
  have ne: "three_discussions \<noteq> []" by (simp add: three_discussions_def)
  have ok: "\<forall>ev\<in>set (issued ?s ?s'). is_delete (sent ev) \<longrightarrow> is_data (result ev)"
    by (simp add: cleared_run(2))
  note t = clear_deletes_and_strips [OF clear_collapse name errs remote lookup cat fetch,
      THEN conjunct2, rule_format, OF conjI, OF ne ok]
  have linked: "\<exists>e\<in>set [error_1, error_2_linked]. truthy (discussion_link e)"
    by (simp add: error_1_def truthy_def)
  from t have "map sent (issued ?s ?s')
      = RepoInfo ''polyseam'' ''sherror''
          # GetDiscussions ''polyseam'' ''sherror'' (cat_id (Category ''C_1'' ''sherror-example''))
          # map (\<lambda>d. DeleteDiscussion (node_id d)) three_discussions" by blast
  then have a: "map sent (issued ?s ?s')
      = [RepoInfo ''polyseam'' ''sherror'', GetDiscussions ''polyseam'' ''sherror'' ''C_1'',
          DeleteDiscussion ''D_27'', DeleteDiscussion ''D_28'', DeleteDiscussion ''D_29'']"
    by (simp add: three_discussions_def)
  from t have "errors (sherrorConfig ?s') = Some (map clear_link [error_1, error_2_linked])" by blast
  then have b: "errors (sherrorConfig ?s') = Some [error_1_unlinked, error_2]"
    by (simp add: clear_link_def truthy_def error_1_def error_2_def error_2_linked_def
        error_1_unlinked_def)
  from t linked have "writebacks ?s' = writebacks ?s + 1" by simp
  then have c: "writebacks ?s' = 1" by (simp add: example_system_def)
  from a b c cleared_run(1,3) show ?thesis by (intro conjI) assumption+
qed

text \<open>
  C9, counterexample, two runs in which the category resolves and no deletion fails.
  In the first the category has no discussion: the run returns after the fetch, the
  first entry keeps its link and the writeback is not called. In the second the
  three discussions of the category are deleted and no entry has a link: the
  writeback is not called.
\<close>

theorem clear_without_writeback_counterexample:
  "fst (clear scripted plain_pathname (example_system [error_1, error_2] empty_category_script)) = Inr ()
   \<and> map sent (calls (snd (clear scripted plain_pathname
        (example_system [error_1, error_2] empty_category_script))))
       = [RepoInfo ''polyseam'' ''sherror'', GetDiscussions ''polyseam'' ''sherror'' ''C_1'']
   \<and> errors (sherrorConfig (snd (clear scripted plain_pathname
        (example_system [error_1, error_2] empty_category_script))))
       = Some [error_1, error_2]
   \<and> discussion_link error_1 = Some ''https://github.com/polyseam/sherror/discussions/27''
   \<and> writebacks (snd (clear scripted plain_pathname
        (example_system [error_1, error_2] empty_category_script))) = 0
   \<and> fst (clear scripted plain_pathname (example_system [error_2] cleared_script)) = Inr ()
   \<and> calls (snd (clear scripted plain_pathname (example_system [error_2] cleared_script)))
       = [Event None (RepoInfo ''polyseam'' ''sherror'') (Data (RepoInfoData (Some example_repository))),
          Event None (GetDiscussions ''polyseam'' ''sherror'' ''C_1'')
            (Data (DiscussionsData (Some three_discussions))),
          Event None (DeleteDiscussion ''D_27'') (Data DeleteDiscussionData),
          Event None (DeleteDiscussion ''D_28'') (Data DeleteDiscussionData),
          Event None (DeleteDiscussion ''D_29'') (Data DeleteDiscussionData)]
   \<and> writebacks (snd (clear scripted plain_pathname (example_system [error_2] cleared_script))) = 0"
  by (simp add: run_defs clear_defs empty_category_script_def cleared_script_def error_2_def
      truthy_def)

section \<open>Properties of the written text\<close>

lemma indent_text_append: "indent_text ind (a @ b) = indent_text ind a @ indent_text ind b"
  by (simp add: indent_text_def)

lemma indent_text_plain: "CHR 0x0A \<notin> set t \<Longrightarrow> indent_text ind t = t"
  by (induction t) (auto simp: indent_text_def)

lemma indent_text_newline: "indent_text ind newline = newline @ ind"
  by (simp add: indent_text_def newline_def)

lemma hex_val_hex_char: "d < 16 \<Longrightarrow> hex_val (hex_char d) = Some d"
  by (auto simp: hex_val_def hex_char_def Let_def)

lemma hex_char_not_newline: "d < 16 \<Longrightarrow> hex_char d \<noteq> CHR 0x0A"
proof
  assume "d < 16" "hex_char d = CHR 0x0A"
  with hex_val_hex_char[of d] have "hex_val (CHR 0x0A) = Some d" by simp
  then show False by (simp add: hex_val_def)
qed

lemma quote_char_no_newline: "CHR 0x0A \<notin> set (quote_char c)"
proof -
  have "(of_char c :: nat) div 16 < 16" by (simp add: less_mult_imp_div_less)
  moreover have "(of_char c :: nat) mod 16 < 16" by simp
  ultimately show ?thesis
    using hex_char_not_newline[of "of_char c div 16"] hex_char_not_newline[of "of_char c mod 16"]
    by (auto simp: quote_char_def backslash_def)
qed

lemma quote_string_no_newline: "CHR 0x0A \<notin> set (quote_string s)"
  using quote_char_no_newline by (auto simp: quote_string_def dquote_def)

lemma hex4_control:
  assumes "(of_char c :: nat) < 32"
  shows "hex4 (CHR ''0'') (CHR ''0'') (hex_char (of_char c div 16)) (hex_char (of_char c mod 16)) = Some c"
proof -
  have z: "hex_val (CHR ''0'') = Some 0" by (simp add: hex_val_def)
  have a: "hex_val (hex_char (of_char c div 16)) = Some (of_char c div 16)"
    using assms by (intro hex_val_hex_char) simp
  have b: "hex_val (hex_char (of_char c mod 16)) = Some (of_char c mod 16)"
    by (intro hex_val_hex_char) simp
  have "(of_char c div 16) * 16 + of_char c mod 16 = (of_char c :: nat)" by simp
  with z a b assms show ?thesis by (simp add: hex4_def)
qed

lemma unquote_quote_char:
  "unquote (quote_char c @ rest) = map_option (\<lambda>(s, t). (c # s, t)) (unquote rest)"
proof -
  consider (short) "c \<in> {CHR 0x22, backslash, CHR 0x08, CHR 0x0C, CHR 0x0A, CHR 0x0D, CHR 0x09}"
    | (control) "c \<notin> {CHR 0x22, backslash, CHR 0x08, CHR 0x0C, CHR 0x0A, CHR 0x0D, CHR 0x09}"
        "(of_char c :: nat) < 32"
    | (plain) "c \<notin> {CHR 0x22, backslash, CHR 0x08, CHR 0x0C, CHR 0x0A, CHR 0x0D, CHR 0x09}"
        "\<not> (of_char c :: nat) < 32"
    by blast
  then show ?thesis
  proof cases
    case short
    then show ?thesis
      by (auto simp: quote_char_def unescape_def backslash_def)
  next
    case control
    from control(1) have q: "quote_char c @ rest =
        backslash # CHR ''u'' # CHR ''0'' # CHR ''0'' #
          hex_char (of_char c div 16) # hex_char (of_char c mod 16) # rest"
      using control(2) by (simp add: quote_char_def)
    show ?thesis unfolding q using hex4_control[OF control(2)]
      by (simp add: backslash_def)
  next
    case plain
    then show ?thesis by (simp add: quote_char_def)
  qed
qed

lemma unquote_concat:
  "unquote (concat (map quote_char s) @ CHR 0x22 # rest) = Some (s, rest)"
  by (induction s) (simp_all add: unquote_quote_char)

lemma read_value_quote_string:
  "read_value (quote_string s @ rest) = Some (StringLiteral s, rest)"
  using unquote_concat[of s rest] by (simp add: read_value_def quote_string_def dquote_def)

lemma skip_space_quote_string: "skip_space (quote_string s @ rest) = quote_string s @ rest"
  by (simp add: skip_space_def quote_string_def dquote_def is_space_def)

lemma digit_char_code: "n < 10 \<Longrightarrow> (of_char (digit_char n) :: nat) = 48 + n"
  by (simp add: digit_char_def)

lemma digit_range_bare:
  "48 \<le> (of_char c :: nat) \<Longrightarrow> (of_char c :: nat) \<le> 57 \<Longrightarrow> is_bare c \<and> \<not> is_space c"
  by (auto simp: is_bare_def is_space_def)

lemma digit_char_bare: "n < 10 \<Longrightarrow> is_bare (digit_char n) \<and> \<not> is_space (digit_char n)"
  using digit_range_bare[of "digit_char n"] digit_char_code[of n] by simp

lemma show_nat_bare: "show_nat n \<noteq> [] \<and> (\<forall>c\<in>set (show_nat n). is_bare c \<and> \<not> is_space c)"
proof (induction n rule: show_nat.induct)
  case (1 n)
  show ?case
  proof (cases "n < 10")
    case True
    then have eq: "show_nat n = [digit_char n]" by (subst show_nat.simps) simp
    from digit_char_bare[OF True] show ?thesis unfolding eq by simp
  next
    case False
    then have eq: "show_nat n = show_nat (n div 10) @ [digit_char (n mod 10)]"
      by (subst show_nat.simps) (simp del: show_nat.simps)
    have "n mod 10 < 10" by simp
    from digit_char_bare[OF this] 1[OF False] show ?thesis unfolding eq
      by (simp del: show_nat.simps)
  qed
qed

lemma show_int_bare: "show_int i \<noteq> [] \<and> (\<forall>c\<in>set (show_int i). is_bare c \<and> \<not> is_space c)"
proof -
  have m: "is_bare (CHR ''-'') \<and> \<not> is_space (CHR ''-'')" by (simp add: is_bare_def is_space_def)
  with show_nat_bare[of "nat (- i)"] show_nat_bare[of "nat i"] show ?thesis
    by (simp add: show_int_def del: show_nat.simps)
qed

lemma show_int_no_newline: "CHR 0x0A \<notin> set (show_int i)"
proof
  assume "CHR 0x0A \<in> set (show_int i)"
  with show_int_bare[of i] have "\<not> is_space (CHR 0x0A)" by blast
  then show False by (simp add: is_space_def)
qed

lemma prettyJSON_no_newline: "CHR 0x0A \<notin> set (prettyJSON v)"
  using quote_string_no_newline by (cases v) (simp_all add: prettyJSON_def)

lemma read_value_bare:
  assumes "lit \<noteq> []" and "\<forall>c\<in>set lit. is_bare c" and "\<not> is_bare d"
  shows "read_value (lit @ d # rest) = Some (Bare lit, d # rest)"
proof -
  from assms(1) obtain c t where lit: "lit = c # t" by (cases lit) auto
  with assms(2) have c: "is_bare c" by simp
  then have nq: "c \<noteq> CHR 0x22" by (auto simp: is_bare_def)
  have tw: "takeWhile is_bare (lit @ d # rest) = lit"
    using assms(2,3) by (simp add: takeWhile_append2)
  have dw: "dropWhile is_bare (lit @ d # rest) = d # rest"
    using assms(2,3) by (simp add: dropWhile_append2)
  have "read_value ((c # t) @ d # rest) = Some (Bare (c # t), d # rest)"
    using tw dw nq unfolding lit by (simp add: read_value_def)
  then show ?thesis by (simp add: lit)
qed

lemma skip_space_bare:
  assumes "lit \<noteq> []" and "\<forall>c\<in>set lit. \<not> is_space c"
  shows "skip_space (lit @ rest) = lit @ rest"
proof -
  from assms obtain c t where "lit = c # t" "\<not> is_space c" by (cases lit) auto
  then show ?thesis by (simp add: skip_space_def)
qed

lemma skip_space_over:
  assumes "\<forall>c\<in>set ws. is_space c" and "\<not> is_space d"
  shows "skip_space (ws @ d # rest) = d # rest"
  using assms by (simp add: skip_space_def dropWhile_append2)

lemma reads_as_show_int: "reads_as (show_int i) (Bare (show_int i))"
  using show_int_bare[of i] by (simp add: reads_as_def read_value_bare skip_space_bare)

lemma reads_as_prettyJSON: "reads_as (prettyJSON v) (literal_of v)"
proof (cases v)
  case None
  have "''undefined'' \<noteq> []" "\<forall>c\<in>set ''undefined''. is_bare c" "\<forall>c\<in>set ''undefined''. \<not> is_space c"
    by (simp_all add: is_bare_def is_space_def)
  then have "reads_as ''undefined'' (Bare ''undefined'')"
    unfolding reads_as_def using read_value_bare skip_space_bare by blast
  with None show ?thesis by (simp add: prettyJSON_def literal_of_def)
next
  case (Some s)
  have "reads_as (quote_string s) (StringLiteral s)"
    unfolding reads_as_def using read_value_quote_string skip_space_quote_string by blast
  with Some show ?thesis by (simp add: prettyJSON_def literal_of_def)
qed

lemma read_fields_more:
  assumes "key \<noteq> []" and "\<forall>c\<in>set key. is_ident c" and "reads_as lit v"
    and "\<forall>c\<in>set ws. is_space c" and "\<not> is_space d"
  shows "read_fields (Suc n) (key @ '': '' @ lit @ '','' @ ws @ d # rest)
     = map_option ((#) (key, v)) (read_fields n (d # rest))"
proof -
  have k: "takeWhile is_ident (key @ CHR '':'' # CHR '' '' # lit @ CHR '','' # ws @ d # rest) = key"
    "dropWhile is_ident (key @ CHR '':'' # CHR '' '' # lit @ CHR '','' # ws @ d # rest)
      = CHR '':'' # CHR '' '' # lit @ CHR '','' # ws @ d # rest"
    using assms(2) by (simp_all add: takeWhile_append2 dropWhile_append2 is_ident_def)
  have nb: "\<not> is_bare (CHR '','')" by (simp add: is_bare_def)
  from assms(3) nb have v: "read_value (lit @ CHR '','' # ws @ d # rest) = Some (v, CHR '','' # ws @ d # rest)"
    "skip_space (lit @ CHR '','' # ws @ d # rest) = lit @ CHR '','' # ws @ d # rest"
    unfolding reads_as_def by blast+
  have sp: "skip_space (CHR '' '' # lit @ CHR '','' # ws @ d # rest) = lit @ CHR '','' # ws @ d # rest"
    using v(2) by (simp add: skip_space_def is_space_def)
  have c: "skip_space (CHR '','' # ws @ d # rest) = CHR '','' # ws @ d # rest"
    by (simp add: skip_space_def is_space_def)
  note w = skip_space_over[OF assms(4,5), of rest]
  show ?thesis using assms(1) k v(1) sp c w
    by (simp add: Let_def)
qed

lemma read_fields_last:
  assumes "key \<noteq> []" and "\<forall>c\<in>set key. is_ident c" and "reads_as lit v"
    and "\<forall>c\<in>set ws. is_space c"
  shows "read_fields (Suc n) (key @ '': '' @ lit @ newline @ ws @ ''}'') = Some [(key, v)]"
proof -
  have k: "takeWhile is_ident (key @ CHR '':'' # CHR '' '' # lit @ CHR 0x0A # ws @ ''}'') = key"
    "dropWhile is_ident (key @ CHR '':'' # CHR '' '' # lit @ CHR 0x0A # ws @ ''}'')
      = CHR '':'' # CHR '' '' # lit @ CHR 0x0A # ws @ ''}''"
    using assms(2) by (simp_all add: takeWhile_append2 dropWhile_append2 is_ident_def)
  have nb: "\<not> is_bare (CHR 0x0A)" by (simp add: is_bare_def is_space_def)
  from assms(3) nb have v: "read_value (lit @ CHR 0x0A # ws @ ''}'') = Some (v, CHR 0x0A # ws @ ''}'')"
    "skip_space (lit @ CHR 0x0A # ws @ ''}'') = lit @ CHR 0x0A # ws @ ''}''"
    unfolding reads_as_def by blast+
  have sp: "skip_space (CHR '' '' # lit @ CHR 0x0A # ws @ ''}'') = lit @ CHR 0x0A # ws @ ''}''"
    using v(2) by (simp add: skip_space_def is_space_def)
  have "\<forall>c\<in>set (CHR 0x0A # ws). is_space c" using assms(4) by (simp add: is_space_def)
  from skip_space_over[OF this, of "CHR ''}''" "[]"]
  have c: "skip_space (CHR 0x0A # ws @ ''}'') = ''}''" by (simp add: is_space_def)
  have e: "skip_space [] = []" by (simp add: skip_space_def)
  show ?thesis using assms(1) k v(1) sp c e
    by (simp add: Let_def newline_def)
qed

text \<open>The written text of an entry, line by line.\<close>

lemma indent_objText:
  "indent_text ind (objText error) =
     ''{'' @ newline @ ind @
     ''  error_code: '' @ show_int (error_code error) @ '','' @ newline @ ind @
     ''  app_message: '' @ prettyJSON (Some (app_message error)) @ '','' @ newline @ ind @
     ''  post_title: '' @ prettyJSON (post_title error) @ '','' @ newline @ ind @
     ''  post_body: '' @ prettyJSON (post_body error) @
     (if truthy (discussion_link error)
      then '','' @ newline @ ind @ ''  _discussion_link: '' @ prettyJSON (discussion_link error)
      else []) @
     newline @ ind @ ''}''"
proof -
  have plain: "indent_text ind ''{'' = ''{''" "indent_text ind ''}'' = ''}''"
    "indent_text ind '','' = '',''"
    "indent_text ind ''  error_code: '' = ''  error_code: ''"
    "indent_text ind ''  app_message: '' = ''  app_message: ''"
    "indent_text ind ''  post_title: '' = ''  post_title: ''"
    "indent_text ind ''  post_body: '' = ''  post_body: ''"
    "indent_text ind ''  _discussion_link: '' = ''  _discussion_link: ''"
    by (simp_all add: indent_text_plain)
  have vals: "indent_text ind (show_int (error_code error)) = show_int (error_code error)"
    "indent_text ind (prettyJSON v) = prettyJSON v" for v
    by (simp_all add: indent_text_plain show_int_no_newline prettyJSON_no_newline)
  have empty: "indent_text ind [] = []" by (simp add: indent_text_def)
  show ?thesis
    unfolding objText_def
    by (simp only: indent_text_append indent_text_newline plain vals empty if_distrib[of "indent_text ind"]
        append_assoc)
qed

lemma read_literal_written:
  assumes ws: "\<forall>c\<in>set ind. is_space c"
  shows "read_literal (indent_text ind (objText error)) =
     Some ([(''error_code'', Bare (show_int (error_code error))),
            (''app_message'', StringLiteral (app_message error)),
            (''post_title'', literal_of (post_title error)),
            (''post_body'', literal_of (post_body error))]
           @ (if truthy (discussion_link error)
              then [(''_discussion_link'', literal_of (discussion_link error))] else []))"
proof -
  define W where "W = newline @ ind @ ''  ''"
  have W: "\<forall>c\<in>set W. is_space c" using ws by (simp add: W_def newline_def is_space_def)
  define L5' where "L5' = ''discussion_link: '' @ prettyJSON (discussion_link error) @ newline @ ind @ ''}''"
  define L4' where "L4' = ''ost_body: '' @ prettyJSON (post_body error) @
     (if truthy (discussion_link error) then '','' @ W @ CHR ''_'' # L5' else newline @ ind @ ''}'')"
  define L3' where "L3' = ''ost_title: '' @ prettyJSON (post_title error) @ '','' @ W @ CHR ''p'' # L4'"
  define L2' where "L2' = ''pp_message: '' @ prettyJSON (Some (app_message error)) @ '','' @ W @ CHR ''p'' # L3'"
  define L1' where "L1' = ''rror_code: '' @ show_int (error_code error) @ '','' @ W @ CHR ''a'' # L2'"
  have shape: "indent_text ind (objText error) = CHR ''{'' # W @ CHR ''e'' # L1'"
    by (simp add: indent_objText W_def L1'_def L2'_def L3'_def L4'_def L5'_def)
  have key: "\<forall>c\<in>set ''error_code''. is_ident c" "\<forall>c\<in>set ''app_message''. is_ident c"
    "\<forall>c\<in>set ''post_title''. is_ident c" "\<forall>c\<in>set ''post_body''. is_ident c"
    "\<forall>c\<in>set ''_discussion_link''. is_ident c"
    by (simp_all add: is_ident_def)
  have ns: "\<not> is_space (CHR ''a'')" "\<not> is_space (CHR ''p'')" "\<not> is_space (CHR ''_'')"
    "\<not> is_space (CHR ''e'')"
    by (simp_all add: is_space_def)
  have r5: "read_fields (Suc n) (CHR ''_'' # L5') = Some [(''_discussion_link'', literal_of (discussion_link error))]"
    for n
    using read_fields_last[OF _ key(5) reads_as_prettyJSON[of "discussion_link error"] ws, of n]
    by (simp add: L5'_def)
  have r4: "read_fields (Suc (Suc n)) (CHR ''p'' # L4') =
      Some ((''post_body'', literal_of (post_body error))
            # (if truthy (discussion_link error)
               then [(''_discussion_link'', literal_of (discussion_link error))] else []))"
    for n
  proof (cases "truthy (discussion_link error)")
    case True
    from read_fields_more[OF _ key(4) reads_as_prettyJSON[of "post_body error"] W ns(3),
        of "Suc n" L5'] r5[of n] True
    show ?thesis by (simp add: L4'_def)
  next
    case False
    from read_fields_last[OF _ key(4) reads_as_prettyJSON[of "post_body error"] ws, of "Suc n"] False
    show ?thesis by (simp add: L4'_def)
  qed
  have r3: "read_fields (Suc (Suc (Suc n))) (CHR ''p'' # L3') =
      Some ((''post_title'', literal_of (post_title error))
            # (''post_body'', literal_of (post_body error))
            # (if truthy (discussion_link error)
               then [(''_discussion_link'', literal_of (discussion_link error))] else []))"
    for n
    using read_fields_more[OF _ key(3) reads_as_prettyJSON[of "post_title error"] W ns(2),
        of "Suc (Suc n)" L4'] r4[of n]
    by (simp add: L3'_def)
  have r2: "read_fields (Suc (Suc (Suc (Suc n)))) (CHR ''a'' # L2') =
      Some ((''app_message'', StringLiteral (app_message error))
            # (''post_title'', literal_of (post_title error))
            # (''post_body'', literal_of (post_body error))
            # (if truthy (discussion_link error)
               then [(''_discussion_link'', literal_of (discussion_link error))] else []))"
    for n
    using read_fields_more[OF _ key(2) reads_as_prettyJSON[of "Some (app_message error)"] W ns(2),
        of "Suc (Suc (Suc n))" L3'] r3[of n]
    by (simp add: L2'_def literal_of_def)
  have r1: "read_fields (Suc (Suc (Suc (Suc (Suc n))))) (CHR ''e'' # L1') =
      Some ((''error_code'', Bare (show_int (error_code error)))
            # (''app_message'', StringLiteral (app_message error))
            # (''post_title'', literal_of (post_title error))
            # (''post_body'', literal_of (post_body error))
            # (if truthy (discussion_link error)
               then [(''_discussion_link'', literal_of (discussion_link error))] else []))"
    for n
    using read_fields_more[OF _ key(1) reads_as_show_int[of "error_code error"] W ns(1),
        of "Suc (Suc (Suc (Suc n)))" L2'] r2[of n]
    by (simp add: L1'_def)
  have "5 \<le> length (CHR ''e'' # L1')" by (simp add: L1'_def)
  then obtain m where "length (CHR ''e'' # L1') = 5 + m" using le_Suc_ex by blast
  then have fuel: "length (CHR ''e'' # L1') = Suc (Suc (Suc (Suc (Suc m))))" by simp
  have s1: "skip_space (CHR ''{'' # W @ CHR ''e'' # L1') = CHR ''{'' # W @ CHR ''e'' # L1'"
    by (simp add: skip_space_def is_space_def)
  note s2 = skip_space_over[OF W ns(4), of L1']
  have "read_literal (CHR ''{'' # W @ CHR ''e'' # L1')
      = read_fields (length (CHR ''e'' # L1')) (CHR ''e'' # L1')"
    unfolding read_literal_def s1 by (simp add: s2)
  with r1[of m] fuel shape show ?thesis by simp
qed

lemma write_elements_nth:
  assumes "i < length errs"
  shows "i < length (write_elements lay errs els)
     \<and> write_elements lay errs els ! i = indent_text (lay els i) (objText (errs ! i))"
proof -
  have len: "length (replace_elements lay errs els) = length els"
    by (simp add: replace_elements_def)
  show ?thesis
  proof (cases "i < length els")
    case True
    then have "replace_elements lay errs els ! i = indent_text (lay els i) (objText (errs ! i))"
      using assms by (simp add: replace_elements_def)
    with True len show ?thesis by (simp add: write_elements_def Let_def nth_append)
  next
    case False
    with assms have "length els + (i - length els) < length errs" by simp
    then have "[length els..<length errs] ! (i - length els) = length els + (i - length els)"
      by (rule nth_upt)
    with False have "[length els..<length errs] ! (i - length els) = i" by simp
    with False assms len show ?thesis by (simp add: write_elements_def Let_def nth_append)
  qed
qed

lemma write_errors_property_elements:
  assumes "write_errors_property lay errs ps = Inr ps'"
  shows "\<exists>els. errors_property ps = Some els \<and> errors_property ps' = Some (write_elements lay errs els)"
  using assms
proof (induction ps arbitrary: ps')
  case Nil
  then show ?case by simp
next
  case (Cons p ps)
  show ?case
  proof (cases "property_name p = ''errors''")
    case True
    with Cons.prems show ?thesis
      by (auto split: property.splits expression.splits)
  next
    case False
    with Cons.prems obtain qs where q: "write_errors_property lay errs ps = Inr qs" "ps' = p # qs"
      by (auto split: sum.splits)
    from Cons.IH[OF q(1)] q(2) False show ?thesis by simp
  qed
qed

lemma write_source_file_elements:
  assumes "write_source_file lay errs file = Inr file'"
  shows "\<exists>els. artifact_elements file = Some els
     \<and> artifact_elements file' = Some (write_elements lay errs els)"
proof -
  define decls where "decls = (if export_default file \<noteq> [] then export_default file else export_config file)"
  from assms obtain ds where ds: "write_declaration lay errs decls = Inr ds"
    and file': "file' = (if export_default file \<noteq> [] then file\<lparr>export_default := ds\<rparr>
                         else file\<lparr>export_config := ds\<rparr>)"
    by (auto simp: write_source_file_def decls_def split: sum.splits if_splits)
  from ds obtain initializer rest initializer' where
    d: "decls = VariableDeclaration (Some initializer) # rest"
      "write_initializer lay errs initializer = Inr initializer'"
      "ds = VariableDeclaration (Some initializer') # rest"
    by (auto simp: write_declaration_def split: list.splits exported_declaration.splits
        option.splits sum.splits)
  from d(3) file' have decls': "(if export_default file' \<noteq> [] then export_default file' else export_config file') = ds"
    by auto
  from d(2) obtain props props' where
    p: "write_errors_property lay errs props = Inr props'"
      "initializer = SatisfiesExpression (ObjectLiteralExpression props)
         \<and> initializer' = SatisfiesExpression (ObjectLiteralExpression props')
       \<or> initializer = ObjectLiteralExpression props
         \<and> initializer' = ObjectLiteralExpression props'"
    by (auto simp: write_initializer_def split: expression.splits sum.splits)
  from write_errors_property_elements[OF p(1)] obtain els where
    e: "errors_property props = Some els" "errors_property props' = Some (write_elements lay errs els)"
    by blast
  from p(2) e d(1,3) decls' have "artifact_elements file = Some els
     \<and> artifact_elements file' = Some (write_elements lay errs els)"
    unfolding artifact_elements_def decls_def[symmetric] by auto
  then show ?thesis ..
qed

lemma writebackConfig_written:
  assumes "writebackConfig s = (Inr (), s')" and "errors (sherrorConfig s) = Some errs"
  shows "\<exists>file file'. artifact s = Some file
     \<and> write_source_file (layout s) errs file = Inr file' \<and> artifact s' = Some file'"
  using assms
  by (auto simp: writebackConfig_def Let_def console_log_def split: if_splits option.splits sum.splits)


text \<open>
  C5. After a writeback that returns, the element of the artifact's array at the
  index of an entry is the entry's text, indented by the editing library; when that
  indentation is white space, the element is read back as the fields
  \<^verbatim>\<open>error_code\<close>, \<^verbatim>\<open>app_message\<close>, \<^verbatim>\<open>post_title\<close>, \<^verbatim>\<open>post_body\<close>, in this
  order, with the entry's values, followed by \<^verbatim>\<open>_discussion_link\<close> with the link
  exactly when the entry has a non-empty link. So an entry without a link is read
  back with four fields and none for the link.
\<close>

theorem writeback_literal_fields:
  assumes "writebackConfig s = (Inr (), s')"
    and "errors (sherrorConfig s) = Some errs" and "i < length errs"
    and "\<forall>elements. \<forall>c\<in>set (layout s elements i). is_space c"
  shows "\<exists>file' elements. artifact s' = Some file' \<and> artifact_elements file' = Some elements
     \<and> i < length elements
     \<and> elements ! i = indent_text (layout s (the (artifact_elements (the (artifact s)))) i) (objText (errs ! i))
     \<and> read_literal (elements ! i) =
         Some ([(''error_code'', Bare (show_int (error_code (errs ! i)))),
                (''app_message'', StringLiteral (app_message (errs ! i))),
                (''post_title'', literal_of (post_title (errs ! i))),
                (''post_body'', literal_of (post_body (errs ! i)))]
               @ (if truthy (discussion_link (errs ! i))
                  then [(''_discussion_link'', literal_of (discussion_link (errs ! i)))] else []))
     \<and> (\<not> truthy (discussion_link (errs ! i)) \<longrightarrow>
          field_names (elements ! i) = Some [''error_code'', ''app_message'', ''post_title'', ''post_body''])"
proof -
  from writebackConfig_written[OF assms(1,2)] obtain old new where
    f: "artifact s = Some old" "write_source_file (layout s) errs old = Inr new"
      "artifact s' = Some new" by blast
  from write_source_file_elements[OF f(2)] obtain els where
    e: "artifact_elements old = Some els"
      "artifact_elements new = Some (write_elements (layout s) errs els)" by blast
  note n = write_elements_nth[OF assms(3), of "layout s" els]
  from assms(4) have ws: "\<forall>c\<in>set (layout s els i). is_space c" by blast
  note r = read_literal_written[OF ws, of "errs ! i"]
  from n have len: "i < length (write_elements (layout s) errs els)"
    and nth: "write_elements (layout s) errs els ! i = indent_text (layout s els i) (objText (errs ! i))"
    by blast+
  have same: "write_elements (layout s) errs els ! i
      = indent_text (layout s (the (artifact_elements (the (artifact s)))) i) (objText (errs ! i))"
    using nth f(1) e(1) by simp
  have names: "\<not> truthy (discussion_link (errs ! i)) \<longrightarrow>
      field_names (write_elements (layout s) errs els ! i)
        = Some [''error_code'', ''app_message'', ''post_title'', ''post_body'']"
    using r nth by (simp add: field_names_def)
  from f(3) e(2) len same r[folded nth] names show ?thesis
    by (intro exI[of _ new] exI[of _ "write_elements (layout s) errs els"] conjI) assumption+
qed


lemma digit_two: "show_int 2 = ''2''"
  by (simp add: show_int_def digit_char_def char_of_eq_iff)

lemma example_written:
  "writebackConfig (example_system [error_1, error_2] ())
     = (Inr (), (example_system [error_1, error_2] ())
          \<lparr>artifact := Some (example_file [written error_1, written error_2]),
           console := [Debug ''No 'export default' found''], writebacks := 1\<rparr>)"
proof -
  have "export_default (example_file [''{}'', ''{}'']) = []" by (simp add: example_file_def)
  then show ?thesis
    by (simp add: writebackConfig_def example_system_def example_config_def truthy_def
        write_example_file console_log_def)
qed


text \<open>
  C5, witness: the writeback of the example's two entries. The second entry has no
  link; its element is read back with the four fields.
\<close>

theorem writeback_literal_fields_witness:
  "fst (writebackConfig (example_system [error_1, error_2] ())) = Inr ()
   \<and> artifact (snd (writebackConfig (example_system [error_1, error_2] ())))
       = Some (example_file [written error_1, written error_2])
   \<and> read_literal (written error_2) =
       Some [(''error_code'', Bare ''2''),
             (''app_message'', StringLiteral ''You must include a --bar option''),
             (''post_title'', StringLiteral ''Error 2: `bar` must be defined''),
             (''post_body'', StringLiteral ''consult the orb'')]
   \<and> field_names (written error_2) = Some [''error_code'', ''app_message'', ''post_title'', ''post_body'']"
proof -
  let ?s = "example_system [error_1, error_2] ()"
  let ?s' = "?s\<lparr>artifact := Some (example_file [written error_1, written error_2]),
           console := [Debug ''No 'export default' found''], writebacks := 1\<rparr>"
  have errs: "errors (sherrorConfig ?s) = Some [error_1, error_2]" "1 < length [error_1, error_2]"
    by (simp_all add: example_system_def example_config_def)
  have ws: "\<forall>elements. \<forall>c\<in>set (layout ?s elements 1). is_space c"
    by (simp add: example_system_def four_spaces_def is_space_def)
  from writeback_literal_fields [OF example_written errs ws]
  obtain file' elements where
    t: "artifact ?s' = Some file'" "artifact_elements file' = Some elements"
      "read_literal (elements ! 1) =
         Some ([(''error_code'', Bare (show_int (error_code ([error_1, error_2] ! 1)))),
                (''app_message'', StringLiteral (app_message ([error_1, error_2] ! 1))),
                (''post_title'', literal_of (post_title ([error_1, error_2] ! 1))),
                (''post_body'', literal_of (post_body ([error_1, error_2] ! 1)))]
               @ (if truthy (discussion_link ([error_1, error_2] ! 1))
                  then [(''_discussion_link'', literal_of (discussion_link ([error_1, error_2] ! 1)))] else []))"
      "\<not> truthy (discussion_link ([error_1, error_2] ! 1)) \<longrightarrow>
          field_names (elements ! 1) = Some [''error_code'', ''app_message'', ''post_title'', ''post_body'']"
    by blast
  from t(1) have "file' = example_file [written error_1, written error_2]" by simp
  with t(2) have "elements = [written error_1, written error_2]"
    by (simp add: artifact_elements_def example_file_def)
  then have el: "elements ! 1 = written error_2" by simp
  have a: "read_literal (written error_2) =
       Some [(''error_code'', Bare ''2''),
             (''app_message'', StringLiteral ''You must include a --bar option''),
             (''post_title'', StringLiteral ''Error 2: `bar` must be defined''),
             (''post_body'', StringLiteral ''consult the orb'')]"
    using t(3) unfolding el
    by (simp add: error_2_def truthy_def literal_of_def digit_two)
  have b: "field_names (written error_2) = Some [''error_code'', ''app_message'', ''post_title'', ''post_body'']"
    using t(4) unfolding el by (simp add: error_2_def truthy_def)
  have c: "fst (writebackConfig ?s) = Inr ()"
    "artifact (snd (writebackConfig ?s)) = Some (example_file [written error_1, written error_2])"
    by (simp_all add: example_written)
  from c a b show ?thesis by (intro conjI) assumption+
qed

end
